theory Spec2Isabelle
  imports Complex_Main "HOL-Library.AList" "HOL-Library.Code_Target_Numeral"
begin

section \<open>Errors and floats of Python\<close>

text \<open>The exceptions the modelled functions can raise.\<close>

datatype py_error = KeyError | ValueError | TypeError | OverflowError | ZeroDivisionError

text \<open>
  A Python float is an IEEE 754 double.  A finite double is modelled by its value, a
  real number; the two infinities are values of their own.  The two zeros are not
  told apart (Python compares them equal), and the modelled operations never give a
  NaN.  Every operation rounds its exact result to the nearest double, a tie going to
  the even mantissa; \<open>nearest_double\<close> is that rounding.

  \<open>bitlen n\<close> is the number of binary digits of \<open>n\<close>, and \<open>binade x\<close> the exponent
  \<open>e\<close> with \<open>2^e \<le> |x| < 2^(e+1)\<close>.  A double in that range is a multiple of
  \<open>2^(e-52)\<close>, and no double is finer than \<open>2^(-1074)\<close>.
\<close>

datatype pyfloat = Fin real | PInf | NInf

fun bitlen :: "nat \<Rightarrow> nat" where
  "bitlen n = (if n = 0 then 0 else Suc (bitlen (n div 2)))"

definition binade :: "real \<Rightarrow> int" where
  "binade x = (if 1 \<le> \<bar>x\<bar> then int (bitlen (nat \<lfloor>\<bar>x\<bar>\<rfloor>)) - 1
               else - int (bitlen (nat (\<lceil>1 / \<bar>x\<bar>\<rceil> - 1))))"

definition ulp_exp :: "real \<Rightarrow> int" where
  "ulp_exp x = max (binade x - 52) (- 1074)"

text \<open>Rounding to the nearest integer, a tie going to the even one.\<close>

definition round_half_even :: "real \<Rightarrow> int" where
  "round_half_even x =
     (let f = \<lfloor>x\<rfloor>; d = x - real_of_int f
      in if d < 1/2 then f else if 1/2 < d then f + 1 else if even f then f else f + 1)"

definition nearest_double :: "real \<Rightarrow> real" where
  "nearest_double x =
     (if x = 0 then 0
      else real_of_int (round_half_even (x / 2 powi ulp_exp x)) * 2 powi ulp_exp x)"

text \<open>The result of a float operation whose exact value is \<open>x\<close>: it overflows to an
  infinity when the rounded value is beyond the largest double.\<close>

definition to_double :: "real \<Rightarrow> pyfloat" where
  "to_double x =
     (let r = nearest_double x
      in if 2 ^ 1024 \<le> r then PInf else if r \<le> - (2 ^ 1024) then NInf else Fin r)"

text \<open>
  \<open>a / b\<close> on two ints: the correctly rounded quotient; \<open>ZeroDivisionError\<close> for a zero
  divisor, \<open>OverflowError\<close> when the quotient is too large for a float.
\<close>

definition py_truediv :: "int \<Rightarrow> int \<Rightarrow> py_error + real" where
  "py_truediv a b =
     (if b = 0 then Inl ZeroDivisionError
      else (case to_double (real_of_int a / real_of_int b) of
              Fin q \<Rightarrow> Inr q
            | PInf \<Rightarrow> Inl OverflowError
            | NInf \<Rightarrow> Inl OverflowError))"

text \<open>\<open>x * c\<close> for a float \<open>x\<close> and a positive int constant \<open>c\<close> (100 and 1000 in the
  sources).\<close>

definition float_times :: "pyfloat \<Rightarrow> nat \<Rightarrow> pyfloat" where
  "float_times x c = (case x of Fin a \<Rightarrow> to_double (a * real c) | PInf \<Rightarrow> PInf | NInf \<Rightarrow> NInf)"

text \<open>\<open>min(x, 100.0)\<close>: the second argument when it is smaller than the first.\<close>

definition float_min_100 :: "pyfloat \<Rightarrow> pyfloat" where
  "float_min_100 x =
     (case x of Fin a \<Rightarrow> (if 100 < a then Fin 100 else Fin a) | PInf \<Rightarrow> Fin 100 | NInf \<Rightarrow> NInf)"

text \<open>\<open>100 - x\<close>.\<close>

definition float_100_minus :: "pyfloat \<Rightarrow> pyfloat" where
  "float_100_minus x = (case x of Fin a \<Rightarrow> to_double (100 - a) | PInf \<Rightarrow> NInf | NInf \<Rightarrow> PInf)"

text \<open>
  \<open>round(x, 1)\<close>: the value of the double is rounded to one decimal, a tie going to the
  even digit, and the decimal is read back as a double.  An infinity is returned as
  it is.
\<close>

definition py_round1 :: "pyfloat \<Rightarrow> pyfloat" where
  "py_round1 x =
     (case x of
        Fin a \<Rightarrow> to_double (real_of_int (round_half_even (a * 10)) / 10)
      | PInf \<Rightarrow> PInf
      | NInf \<Rightarrow> NInf)"


definition bind_err :: "py_error + 'a \<Rightarrow> ('a \<Rightarrow> py_error + 'b) \<Rightarrow> py_error + 'b" where
  "bind_err x f = (case x of Inl e \<Rightarrow> Inl e | Inr v \<Rightarrow> f v)"

section \<open>Texts\<close>

text \<open>
  A Python \<open>str\<close> is a sequence of Unicode code points, and \<open>len\<close> counts code
  points.  A string value is therefore a list of code points (natural numbers).  \<open>ascii\<close>
  turns a literal of ASCII characters into such a list.
\<close>

type_synonym str = "nat list"

definition ascii :: "string \<Rightarrow> str" where
  "ascii s = map of_char s"

section \<open>Calibration store (calibration.py)\<close>

text \<open>
  A session entry is a Python dict with the optional keys \<open>factor\<close>, \<open>updated_at\<close>,
  \<open>last_estimate\<close>, \<open>estimate_time\<close>, \<open>last_actual\<close> and \<open>calibrated_at\<close>: a record of
  optional fields, a key being in the dict when its field is not \<open>None\<close>.  A factor
  or a time is a finite float, given by its value.  The store is the dict held in
  \<open>_calibration_cache\<close>: the sessions in insertion order (an association list) and the
  \<open>global_factor\<close>.  \<open>_load_calibration\<close> returns that dict and \<open>_save_calibration\<close>
  writes it out without changing it, so every operation takes the store and returns
  the new one.  \<open>time.time()\<close> is the argument \<open>now\<close> of an operation.

  The average that \<open>set_factor\<close> stores as \<open>global_factor\<close> is \<open>sum(...) / len(...)\<close>
  on floats: each addition and the division round to the nearest double.  (From
  Python 3.12 on \<open>sum\<close> compensates the rounding errors of the additions, which can
  change the last bit of the sum of three or more factors; no function of the module
  reads \<open>global_factor\<close> back into a result.)
\<close>

record session_data =
  factor :: "real option"
  updated_at :: "real option"
  last_estimate :: "int option"
  estimate_time :: "real option"
  last_actual :: "int option"
  calibrated_at :: "real option"

record calibration =
  sessions :: "(str \<times> session_data) list"
  global_factor :: real

definition empty_session :: session_data where
  "empty_session = \<lparr>factor = None, updated_at = None, last_estimate = None,
     estimate_time = None, last_actual = None, calibrated_at = None\<rparr>"

text \<open>The dict the cache starts from when no file is loaded.\<close>

definition initial_calibration :: calibration where
  "initial_calibration = \<lparr>sessions = [], global_factor = 1\<rparr>"

text \<open>Truth value of a dict: it has at least one key.\<close>

definition truthy :: "session_data \<Rightarrow> bool" where
  "truthy sd = (factor sd \<noteq> None \<or> updated_at sd \<noteq> None \<or> last_estimate sd \<noteq> None \<or>
     estimate_time sd \<noteq> None \<or> last_actual sd \<noteq> None \<or> calibrated_at sd \<noteq> None)"

definition get_factor :: "calibration \<Rightarrow> str \<Rightarrow> real" where
  "get_factor data session_id =
     (case map_of (sessions data) session_id of
        None \<Rightarrow> 1
      | Some sd \<Rightarrow>
          (if truthy sd then (case factor sd of Some f \<Rightarrow> f | None \<Rightarrow> 1) else 1))"

definition recent_factors :: "(str \<times> session_data) list \<Rightarrow> real \<Rightarrow> real list" where
  "recent_factors ss now =
     map (\<lambda>(k, s). case factor s of Some f \<Rightarrow> f | None \<Rightarrow> 1)
       (filter (\<lambda>(k, s). (case updated_at s of Some u \<Rightarrow> u | None \<Rightarrow> 0)
                         > nearest_double (now - 86400)) ss)"

definition float_sum :: "real list \<Rightarrow> real" where
  "float_sum fs = foldl (\<lambda>acc f. nearest_double (acc + f)) 0 fs"

definition set_factor :: "calibration \<Rightarrow> str \<Rightarrow> real \<Rightarrow> real \<Rightarrow> calibration" where
  "set_factor data session_id f now =
     (let f' = max (1/2) (min 2 f);
          ss = AList.update session_id
                 (empty_session\<lparr>factor := Some f', updated_at := Some now\<rparr>) (sessions data);
          recent = recent_factors ss now
      in \<lparr>sessions = ss,
          global_factor = (if recent \<noteq> [] then nearest_double (float_sum recent / real (length recent))
                           else global_factor data)\<rparr>)"

definition get_last_estimate :: "calibration \<Rightarrow> str \<Rightarrow> int option" where
  "get_last_estimate data session_id =
     (case map_of (sessions data) session_id of
        None \<Rightarrow> None
      | Some sd \<Rightarrow> (if truthy sd then last_estimate sd else None))"

definition set_last_estimate :: "calibration \<Rightarrow> str \<Rightarrow> int \<Rightarrow> real \<Rightarrow> calibration" where
  "set_last_estimate data session_id tokens now =
     (let sd = (case map_of (sessions data) session_id of
                  None \<Rightarrow> empty_session | Some sd \<Rightarrow> sd)
      in data\<lparr>sessions := AList.update session_id
           (sd\<lparr>last_estimate := Some tokens, estimate_time := Some now\<rparr>) (sessions data)\<rparr>)"

text \<open>
  \<open>calibrate_from_actual\<close> returns its result together with the new store, or raises.
  The test \<open>not estimated or estimated <= 0\<close> holds for \<open>None\<close>, for \<open>0\<close> and for a
  negative estimate.  The division \<open>actual_tokens / estimated\<close> of two ints rounds to
  the nearest double and raises \<open>OverflowError\<close> when the quotient is too large for a
  float; that happens before \<open>set_factor\<close> is called, so the store is then as it was.
\<close>

definition calibrate_from_actual ::
  "calibration \<Rightarrow> str \<Rightarrow> int \<Rightarrow> real \<Rightarrow> py_error + (real option \<times> calibration)" where
  "calibrate_from_actual data session_id actual_tokens now =
     (case get_last_estimate data session_id of
        None \<Rightarrow> Inr (None, data)
      | Some estimated \<Rightarrow>
          if estimated = 0 \<or> estimated \<le> 0 then Inr (None, data)
          else
            (case py_truediv actual_tokens estimated of
               Inl err \<Rightarrow> Inl err
             | Inr f \<Rightarrow>
                (let data1 = set_factor data session_id f now;
                     data2 = (case map_of (sessions data1) session_id of
                                None \<Rightarrow> data1
                              | Some sd \<Rightarrow> data1\<lparr>sessions := AList.update session_id
                                  (sd\<lparr>last_actual := Some actual_tokens, calibrated_at := Some now\<rparr>)
                                  (sessions data1)\<rparr>)
                 in Inr (Some f, data2))))"

definition clear_session :: "calibration \<Rightarrow> str \<Rightarrow> calibration" where
  "clear_session data session_id =
     (case map_of (sessions data) session_id of
        None \<Rightarrow> data
      | Some sd \<Rightarrow> data\<lparr>sessions := AList.delete session_id (sessions data)\<rparr>)"

text \<open>The clamp of the specification: \<open>clamp x lo hi\<close> is \<open>x\<close> brought into \<open>[lo, hi]\<close>.\<close>

definition clamp :: "real \<Rightarrow> real \<Rightarrow> real \<Rightarrow> real" where
  "clamp x lo hi = (if x < lo then lo else if hi < x then hi else x)"

text \<open>
  A run of the store: the mutating operations of the module, each with the time at
  which it is called.  A call of \<open>calibrate_from_actual\<close> that raises leaves the store
  as it was.
\<close>

datatype store_op =
    SetFactor str real
  | SetLastEstimate str int
  | CalibrateFromActual str int
  | ClearSession str

fun apply_store_op :: "calibration \<Rightarrow> real \<times> store_op \<Rightarrow> calibration" where
  "apply_store_op data (now, SetFactor s f) = set_factor data s f now"
| "apply_store_op data (now, SetLastEstimate s t) = set_last_estimate data s t now"
| "apply_store_op data (now, CalibrateFromActual s a) =
     (case calibrate_from_actual data s a now of Inl err \<Rightarrow> data | Inr (r, data') \<Rightarrow> data')"
| "apply_store_op data (now, ClearSession s) = clear_session data s"

definition run_store :: "calibration \<Rightarrow> (real \<times> store_op) list \<Rightarrow> calibration" where
  "run_store data ops = foldl apply_store_op data ops"

text \<open>The operations through which \<open>set_factor\<close> is called on a session.\<close>

fun calls_set_factor :: "str \<Rightarrow> store_op \<Rightarrow> bool" where
  "calls_set_factor s (SetFactor s' f) = (s' = s)"
| "calls_set_factor s (CalibrateFromActual s' a) = (s' = s)"
| "calls_set_factor s (SetLastEstimate s' t) = False"
| "calls_set_factor s (ClearSession s') = False"

text \<open>The session has no entry, or an entry without the key \<open>factor\<close>.\<close>

definition has_no_factor :: "calibration \<Rightarrow> str \<Rightarrow> bool" where
  "has_no_factor data s = (case map_of (sessions data) s of None \<Rightarrow> True | Some sd \<Rightarrow> factor sd = None)"

section \<open>Token estimation and context windows (tokenizer.py)\<close>

text \<open>
  An encoder maps a string to its token ids.  \<open>tiktoken\<close> is what
  \<open>tiktoken.get_encoding("cl100k_base")\<close> gives: the encoder, or \<open>None\<close> when the
  package is not installed (the \<open>ImportError\<close> branch).  The module variable
  \<open>_encoder\<close> is the second argument of \<open>get_encoder\<close>, and is returned updated.
\<close>

type_synonym encoder = "str \<Rightarrow> nat list"

definition get_encoder ::
  "encoder option \<Rightarrow> encoder option \<Rightarrow> encoder option \<times> encoder option" where
  "get_encoder tiktoken cache =
     (case cache of
        Some e \<Rightarrow> (Some e, cache)
      | None \<Rightarrow> (case tiktoken of Some e \<Rightarrow> (Some e, Some e) | None \<Rightarrow> (None, None)))"

definition estimate_tokens ::
  "encoder option \<Rightarrow> encoder option \<Rightarrow> str option \<Rightarrow> nat \<times> encoder option" where
  "estimate_tokens tiktoken cache txt =
     (case txt of
        None \<Rightarrow> (0, cache)
      | Some t \<Rightarrow>
          if t = [] then (0, cache)
          else (case get_encoder tiktoken cache of
                  (Some e, cache') \<Rightarrow> (length (e t), cache')
                | (None, cache') \<Rightarrow> (length t div 4, cache')))"

text \<open>
  \<open>str_lower\<close> is \<open>str.lower\<close> on ASCII strings (\<open>is_ascii\<close>).  On other strings Python
  follows the Unicode case tables, which are not part of the repository (the Kelvin
  sign, code point 8490, lowers to \<open>k\<close>).  \<open>get_context_window\<close> therefore takes the
  lowering function as its first argument; \<open>lowers_ascii lower\<close> says that it is
  \<open>str.lower\<close> as far as ASCII strings go.  Every key of the table below is ASCII.
\<close>

definition lower_cp :: "nat \<Rightarrow> nat" where
  "lower_cp c = (if 65 \<le> c \<and> c \<le> 90 then c + 32 else c)"

definition str_lower :: "str \<Rightarrow> str" where
  "str_lower s = map lower_cp s"

definition is_ascii :: "str \<Rightarrow> bool" where
  "is_ascii s = list_all (\<lambda>c. c < 128) s"

definition lowers_ascii :: "(str \<Rightarrow> str) \<Rightarrow> bool" where
  "lowers_ascii lower = (\<forall>s. is_ascii s \<longrightarrow> lower s = str_lower s)"

fun startswith :: "str \<Rightarrow> str \<Rightarrow> bool" where
  "startswith s [] = True"
| "startswith [] (p # ps) = False"
| "startswith (x # xs) (p # ps) = (x = p \<and> startswith xs ps)"

text \<open>\<open>str_contains sub s\<close> is Python's \<open>sub in s\<close>.\<close>

primrec str_contains :: "str \<Rightarrow> str \<Rightarrow> bool" where
  "str_contains sub [] = (sub = [])"
| "str_contains sub (x # xs) = (startswith (x # xs) sub \<or> str_contains sub xs)"

text \<open>The dict \<open>MODEL_CONTEXT_WINDOWS\<close>, in insertion order.\<close>

definition MODEL_CONTEXT_WINDOWS :: "(str \<times> int) list" where
  "MODEL_CONTEXT_WINDOWS =
     [(ascii ''claude-4.5-opus'', 176000),
      (ascii ''claude-4.5-sonnet'', 176000),
      (ascii ''claude-4-opus'', 176000),
      (ascii ''claude-4-sonnet'', 176000),
      (ascii ''claude-3.5-sonnet'', 176000),
      (ascii ''claude-3-opus'', 176000),
      (ascii ''claude-3-sonnet'', 176000),
      (ascii ''claude-3-haiku'', 176000),
      (ascii ''gpt-4o'', 128000),
      (ascii ''gpt-4-turbo'', 128000),
      (ascii ''gpt-4'', 8192),
      (ascii ''gpt-3.5-turbo'', 16385),
      (ascii ''gemini-2.5-pro'', 1000000),
      (ascii ''gemini-2.5-flash'', 1000000),
      (ascii ''gemini-1.5-pro'', 2000000),
      (ascii ''gemini-1.5-flash'', 1000000),
      (ascii ''default'', 176000)]"

text \<open>\<open>d[key]\<close>: the value, or \<open>KeyError\<close>.\<close>

definition dict_index :: "(str \<times> 'v) list \<Rightarrow> str \<Rightarrow> py_error + 'v" where
  "dict_index d key = (case map_of d key of None \<Rightarrow> Inl KeyError | Some v \<Rightarrow> Inr v)"

definition get_context_window :: "(str \<Rightarrow> str) \<Rightarrow> str option \<Rightarrow> py_error + int" where
  "get_context_window lower model =
     (case model of
        None \<Rightarrow> dict_index MODEL_CONTEXT_WINDOWS (ascii ''default'')
      | Some m \<Rightarrow>
          if m = [] then dict_index MODEL_CONTEXT_WINDOWS (ascii ''default'')
          else
            (let model_lower = lower m in
             case map_of MODEL_CONTEXT_WINDOWS model_lower of
               Some window \<Rightarrow> Inr window
             | None \<Rightarrow>
                 (case find (\<lambda>(key, window). key \<noteq> ascii ''default'' \<and> str_contains key model_lower)
                         MODEL_CONTEXT_WINDOWS of
                    Some (key, window) \<Rightarrow> Inr window
                  | None \<Rightarrow> dict_index MODEL_CONTEXT_WINDOWS (ascii ''default''))))"

text \<open>
  \<open>(tokens / context_window) * 100\<close>, capped at \<open>100.0\<close>: the division of the two
  ints rounds (or raises \<open>OverflowError\<close>), and the product rounds again.
\<close>

definition calculate_context_percentage :: "int \<Rightarrow> int \<Rightarrow> py_error + pyfloat" where
  "calculate_context_percentage tokens context_window =
     (if context_window \<le> 0 then Inr (Fin 0)
      else bind_err (py_truediv tokens context_window)
             (\<lambda>q. Inr (float_min_100 (float_times (Fin q) 100))))"

record context_metrics =
  used_percentage :: pyfloat
  remaining_percentage :: pyfloat
  context_window_size :: int
  estimated_tokens :: int

definition calculate_context_metrics ::
  "(str \<Rightarrow> str) \<Rightarrow> int \<Rightarrow> str option \<Rightarrow> py_error + context_metrics" where
  "calculate_context_metrics lower tokens model =
     bind_err (get_context_window lower model)
       (\<lambda>context_window. bind_err (calculate_context_percentage tokens context_window)
       (\<lambda>used. Inr \<lparr>used_percentage = py_round1 used,
                     remaining_percentage = py_round1 (float_100_minus used),
                     context_window_size = context_window,
                     estimated_tokens = tokens\<rparr>))"

text \<open>The keys of the table that stand before \<open>gpt-4o\<close>.\<close>

definition keys_before_gpt_4o :: "str list" where
  "keys_before_gpt_4o = map fst (takeWhile (\<lambda>(key, window). key \<noteq> ascii ''gpt-4o'') MODEL_CONTEXT_WINDOWS)"

section \<open>Regular expressions, as far as context\_parser.py uses them\<close>























section \<open>Strings and numbers of Python\<close>








section \<open>The report parser (context\_parser.py)\<close>

record ContextItem =
  name :: str
  tokens :: int

record ContextCategory =
  name :: str
  tokens :: int
  percentage :: pyfloat
  items :: "ContextItem list"

record ContextBreakdown =
  model :: str
  total_tokens :: int
  max_tokens :: int
  used_percentage :: pyfloat
  system_prompt :: "ContextCategory option"
  system_tools :: "ContextCategory option"
  mcp_tools :: "ContextCategory option"
  custom_agents :: "ContextCategory option"
  memory_files :: "ContextCategory option"
  skills :: "ContextCategory option"
  messages :: "ContextCategory option"
  free_space :: "ContextCategory option"
  autocompact_buffer :: "ContextCategory option"
  raw_output :: str






























section \<open>Floats: properties\<close>

declare bitlen.simps [simp del]

lemma bitlen_numeral [simp]:
  "bitlen 0 = 0"
  "bitlen (Suc 0) = 1"
  "bitlen (numeral k) = Suc (bitlen (numeral k div 2))"
  by (simp_all add: bitlen.simps)

lemma bitlen_bounds: "0 < n \<Longrightarrow> 2 ^ (bitlen n - 1) \<le> n \<and> n < 2 ^ bitlen n"
proof (induction n rule: bitlen.induct)
  case (1 n)
  show ?case
  proof (cases "n div 2 = 0")
    case True
    with "1.prems" have "n = 1" by (simp add: div_eq_0_iff) 
    then show ?thesis by (simp add: bitlen.simps)
  next
    case False
    then have pos: "0 < n div 2" by simp
    from "1.prems" have n0: "n \<noteq> 0" by simp
    from "1.IH" [OF n0 pos]
    have lo: "2 ^ (bitlen (n div 2) - 1) \<le> n div 2" and hi: "n div 2 < 2 ^ bitlen (n div 2)"
      by simp_all
    have b: "bitlen n = Suc (bitlen (n div 2))" using n0 by (simp add: bitlen.simps)
    have bp: "0 < bitlen (n div 2)" using pos by (simp add: bitlen.simps)
    then obtain k where k: "bitlen (n div 2) = Suc k" by (cases "bitlen (n div 2)") auto
    have "2 * 2 ^ k \<le> 2 * (n div 2)" using lo k by simp
    also have "\<dots> \<le> n" by simp
    finally have l: "2 ^ (bitlen n - 1) \<le> n" using b k by simp
    have "Suc (n div 2) \<le> 2 ^ bitlen (n div 2)" using hi by simp
    then have "2 * Suc (n div 2) \<le> 2 * 2 ^ bitlen (n div 2)" by simp
    moreover have "n < 2 * Suc (n div 2)" by simp
    ultimately have "n < 2 ^ bitlen n" using b by simp
    with l show ?thesis by simp
  qed
qed

lemma powi_neg_nat: "(2::real) powi (- int n) = 1 / 2 ^ n"
  by (simp only: power_int_minus power_int_of_nat inverse_eq_divide)

lemma binade_bounds:
  assumes "x \<noteq> 0"
  shows "2 powi binade x \<le> \<bar>x\<bar> \<and> \<bar>x\<bar> < 2 powi (binade x + 1)"
proof (cases "1 \<le> \<bar>x\<bar>")
  case True
  define n where "n = nat \<lfloor>\<bar>x\<bar>\<rfloor>"
  have n1: "0 < n" using True by (simp add: n_def)
  have nle: "real n \<le> \<bar>x\<bar>" and xlt: "\<bar>x\<bar> < real n + 1"
    using True by (simp_all add: n_def)
  from bitlen_bounds [OF n1] have lo: "2 ^ (bitlen n - 1) \<le> n" and hi: "n < 2 ^ bitlen n"
    by simp_all
  have bp: "0 < bitlen n" using n1 by (simp add: bitlen.simps)
  then obtain k where k: "bitlen n = Suc k" by (cases "bitlen n") auto
  have e: "binade x = int k" using True k by (simp add: binade_def n_def)
  have "(2::real) ^ k \<le> real n" using lo k by (metis diff_Suc_1 of_nat_numeral of_nat_power of_nat_le_iff)
  moreover have "(2::real) powi binade x = 2 ^ k" using e by simp
  ultimately have a: "2 powi binade x \<le> \<bar>x\<bar>" using nle by linarith
  have "Suc n \<le> 2 ^ Suc k" using hi k by simp
  then have "real (Suc n) \<le> 2 ^ Suc k" by (metis of_nat_numeral of_nat_power of_nat_le_iff)
  then have "\<bar>x\<bar> < 2 ^ Suc k" using xlt by linarith
  moreover have "(2::real) powi (binade x + 1) = 2 ^ Suc k"
    using e by (simp add: power_int_add)
  ultimately show ?thesis using a by simp
next
  case False
  define y where "y = 1 / \<bar>x\<bar>"
  define n where "n = nat (\<lceil>y\<rceil> - 1)"
  have xp: "0 < \<bar>x\<bar>" using assms by simp
  have y1: "1 < y" using False xp by (simp add: y_def)
  then have c2: "2 \<le> \<lceil>y\<rceil>" by (simp add: le_ceiling_iff)
  then have n1: "0 < n" by (simp add: n_def)
  have rn: "real n = real_of_int \<lceil>y\<rceil> - 1" using c2 by (simp add: n_def)
  have nlt: "real n < y" using rn by linarith
  have yle: "y \<le> real n + 1" using rn by simp
  from bitlen_bounds [OF n1] have lo: "2 ^ (bitlen n - 1) \<le> n" and hi: "n < 2 ^ bitlen n"
    by simp_all
  have bp: "0 < bitlen n" using n1 by (simp add: bitlen.simps)
  then obtain k where k: "bitlen n = Suc k" by (cases "bitlen n") auto
  have e: "binade x = - int (Suc k)" using False k by (simp add: binade_def n_def y_def)
  have "(2::real) ^ k \<le> real n" using lo k by (metis diff_Suc_1 of_nat_numeral of_nat_power of_nat_le_iff)
  then have ygt: "2 ^ k < y" using nlt by linarith
  have "Suc n \<le> 2 ^ Suc k" using hi k by simp
  then have "real (Suc n) \<le> 2 ^ Suc k" by (metis of_nat_numeral of_nat_power of_nat_le_iff)
  then have yub: "y \<le> 2 ^ Suc k" using yle by linarith
  have x: "\<bar>x\<bar> = 1 / y" using xp by (simp add: y_def)
  have yp: "0 < y" using y1 by simp
  have "1 / 2 ^ Suc k \<le> 1 / y" using yub yp by (simp add: frac_le)
  moreover have "(2::real) powi binade x = 1 / 2 ^ Suc k"
    unfolding e by (rule powi_neg_nat)
  ultimately have a: "2 powi binade x \<le> \<bar>x\<bar>" using x by simp
  have "1 / y < 1 / 2 ^ k" using ygt by (simp add: frac_less2)
  moreover have "(2::real) powi (binade x + 1) = 1 / 2 ^ k"
  proof -
    have "binade x + 1 = - int k" using e by simp
    then show ?thesis by (simp only: powi_neg_nat)
  qed
  ultimately show ?thesis using a x by simp
qed

lemma round_half_even_error: "\<bar>real_of_int (round_half_even y) - y\<bar> \<le> 1/2"
  unfolding round_half_even_def Let_def by (auto; linarith)

lemma nearest_double_error:
  "\<bar>nearest_double x - x\<bar> \<le> 2 powi ulp_exp x / 2"
proof (cases "x = 0")
  case True
  then show ?thesis by (simp add: nearest_double_def)
next
  case False
  define u :: real where "u = 2 powi ulp_exp x"
  have up: "0 < u" by (simp add: u_def)
  have "nearest_double x - x = (real_of_int (round_half_even (x / u)) - x / u) * u"
    using False up by (simp add: nearest_double_def u_def field_simps)
  then have "\<bar>nearest_double x - x\<bar> = \<bar>real_of_int (round_half_even (x / u)) - x / u\<bar> * u"
    using up by (simp add: abs_mult)
  also have "\<dots> \<le> 1/2 * u"
    using round_half_even_error [of "x / u"] up by (intro mult_right_mono) simp_all
  finally show ?thesis by (simp add: u_def)
qed

lemma ulp_exp_normal:
  assumes "2 powi (- 1022) \<le> \<bar>x\<bar>"
  shows "ulp_exp x = binade x - 52"
proof -
  have "x \<noteq> 0" using assms by (auto simp: power_int_minus)
  from binade_bounds [OF this] assms have lt: "(2::real) powi (- 1022) < 2 powi (binade x + 1)"
    by linarith
  have "- 1022 < binade x + 1"
  proof (rule ccontr)
    assume "\<not> - 1022 < binade x + 1"
    then have "binade x + 1 \<le> - 1022" by simp
    then have "(2::real) powi (binade x + 1) \<le> 2 powi (- 1022)"
      by (rule power_int_increasing) simp
    with lt show False by simp
  qed
  then show ?thesis by (simp add: ulp_exp_def)
qed

lemma nearest_double_rel_error:
  assumes "2 powi (- 1022) \<le> \<bar>x\<bar>"
  shows "\<bar>nearest_double x - x\<bar> \<le> \<bar>x\<bar> * 2 powi (- 53)"
proof -
  have x0: "x \<noteq> 0" using assms by (auto simp: power_int_minus)
  have "(2::real) powi ulp_exp x / 2 = 2 powi binade x * 2 powi (- 53)"
    unfolding ulp_exp_normal [OF assms]
    by (simp add: power_int_diff power_int_minus)
  also have "\<dots> \<le> \<bar>x\<bar> * 2 powi (- 53)"
    using binade_bounds [OF x0] by (intro mult_right_mono) simp_all
  finally show ?thesis using nearest_double_error [of x] by linarith
qed

lemma to_double_zero: "to_double 0 = Fin 0"
  by (simp add: to_double_def nearest_double_def)

lemma nearest_double_abs_bounds:
  assumes "2 powi (- 1022) \<le> \<bar>x\<bar>"
  shows "\<bar>nearest_double x\<bar> \<le> 2 * \<bar>x\<bar>" and "\<bar>x\<bar> / 2 \<le> \<bar>nearest_double x\<bar>"
proof -
  have e: "(2::real) powi (- 53) \<le> 1/2" by (simp add: power_int_minus)
  have "\<bar>x\<bar> * 2 powi (- 53) \<le> \<bar>x\<bar> * (1/2)"
    using e by (intro mult_left_mono) simp_all
  with nearest_double_rel_error [OF assms] have d: "\<bar>nearest_double x - x\<bar> \<le> \<bar>x\<bar> / 2" by simp
  from d show "\<bar>nearest_double x\<bar> \<le> 2 * \<bar>x\<bar>" by linarith
  from d show "\<bar>x\<bar> / 2 \<le> \<bar>nearest_double x\<bar>" by linarith
qed

lemma to_double_finite:
  assumes "2 powi (- 1022) \<le> \<bar>x\<bar>" and "\<bar>x\<bar> < 2 ^ 1023"
  shows "to_double x = Fin (nearest_double x)"
proof -
  have "\<bar>nearest_double x\<bar> < 2 * 2 ^ 1023"
    using nearest_double_abs_bounds(1) [OF assms(1)] assms(2) by linarith
  then have "\<bar>nearest_double x\<bar> < 2 ^ 1024" by simp
  then have "\<not> 2 ^ 1024 \<le> nearest_double x" and "\<not> nearest_double x \<le> - (2 ^ 1024)"
    by linarith+
  then show ?thesis by (simp add: to_double_def Let_def)
qed

lemma int_quotient_normal:
  assumes "a \<noteq> 0" and "0 < b" and "b < 2 ^ 1000" and "\<bar>a\<bar> < 2 ^ 1000"
  shows "2 powi (- 1000) \<le> \<bar>real_of_int a / real_of_int b\<bar>"
    and "\<bar>real_of_int a / real_of_int b\<bar> < 2 ^ 1000"
proof -
  have a1: "1 \<le> \<bar>real_of_int a\<bar>" using assms(1) by linarith
  have b1: "1 \<le> real_of_int b" using assms(2) by linarith
  have bl: "real_of_int b < 2 ^ 1000"
    using assms(3) by (metis of_int_less_iff of_int_numeral of_int_power)
  have al: "\<bar>real_of_int a\<bar> < 2 ^ 1000"
    using assms(4) by (metis of_int_abs of_int_less_iff of_int_numeral of_int_power)
  have q: "\<bar>real_of_int a / real_of_int b\<bar> = \<bar>real_of_int a\<bar> / real_of_int b"
    using b1 by simp
  have "1 / 2 ^ 1000 \<le> 1 / real_of_int b"
    using bl b1 by (intro divide_left_mono) simp_all
  also have "\<dots> \<le> \<bar>real_of_int a\<bar> / real_of_int b"
    using a1 b1 by (intro divide_right_mono) simp_all
  finally show "2 powi (- 1000) \<le> \<bar>real_of_int a / real_of_int b\<bar>"
    unfolding q by (simp add: power_int_minus inverse_eq_divide)
  have "\<bar>real_of_int a\<bar> / real_of_int b \<le> \<bar>real_of_int a\<bar> / 1"
    using b1 by (intro divide_left_mono) simp_all
  then show "\<bar>real_of_int a / real_of_int b\<bar> < 2 ^ 1000"
    unfolding q using al by simp
qed

lemma powi_1000_1022: "(2::real) powi (- 1022) \<le> 2 powi (- 1000)"
  by (rule power_int_increasing) simp_all

lemma pow_1000_1023: "(2::real) ^ 1000 \<le> 2 ^ 1023"
  by (rule power_increasing) simp_all

lemma py_truediv_bounded:
  assumes "0 < b" and "b < 2 ^ 1000" and "\<bar>a\<bar> < 2 ^ 1000"
  shows "py_truediv a b = Inr (nearest_double (real_of_int a / real_of_int b))"
    and "\<bar>nearest_double (real_of_int a / real_of_int b) - real_of_int a / real_of_int b\<bar>
           \<le> \<bar>real_of_int a / real_of_int b\<bar> * 2 powi (- 53)"
proof -
  let ?x = "real_of_int a / real_of_int b"
  have "py_truediv a b = Inr (nearest_double ?x) \<and> \<bar>nearest_double ?x - ?x\<bar> \<le> \<bar>?x\<bar> * 2 powi (- 53)"
  proof (cases "a = 0")
    case True
    then show ?thesis using assms(1) by (simp add: py_truediv_def to_double_zero nearest_double_def)
  next
    case False
    from int_quotient_normal [OF False assms]
    have lo: "2 powi (- 1022) \<le> \<bar>?x\<bar>" and hi: "\<bar>?x\<bar> < 2 ^ 1023"
      using powi_1000_1022 pow_1000_1023 by linarith+
    from to_double_finite [OF lo hi] nearest_double_rel_error [OF lo] assms(1)
    show ?thesis by (simp add: py_truediv_def)
  qed
  then show "py_truediv a b = Inr (nearest_double ?x)"
    and "\<bar>nearest_double ?x - ?x\<bar> \<le> \<bar>?x\<bar> * 2 powi (- 53)" by simp_all
qed

lemmas float_eval = nearest_double_def to_double_def ulp_exp_def binade_def round_half_even_def Let_def

section \<open>Calibration store: properties\<close>

lemma map_of_update_same: "map_of (AList.update k v al) k = Some v"
  by (simp add: update_conv')

lemma map_of_update_other: "k' \<noteq> k \<Longrightarrow> map_of (AList.update k v al) k' = map_of al k'"
  by (simp add: update_conv')

text \<open>
  C5.  When the session has no \<open>last_estimate\<close> (no entry, or an entry without the
  key), or a non-positive one, \<open>calibrate_from_actual\<close> returns \<open>None\<close> and the store
  it leaves is the store it found.
\<close>

theorem calibrate_without_estimate_is_noop:
  "get_last_estimate data s = None \<or> (\<exists>e. get_last_estimate data s = Some e \<and> e \<le> 0)
   \<Longrightarrow> calibrate_from_actual data s a now = Inr (None, data)"
  by (auto simp: calibrate_from_actual_def)

theorem calibrate_without_estimate_is_noop_witness:
  "calibrate_from_actual initial_calibration (ascii ''new-session'') 50000 10
     = Inr (None, initial_calibration)
   \<and> get_factor initial_calibration (ascii ''new-session'') = 1
   \<and> calibrate_from_actual (set_last_estimate initial_calibration (ascii ''s'') (-5) 3) (ascii ''s'') 50000 10
     = Inr (None, set_last_estimate initial_calibration (ascii ''s'') (-5) 3)"
proof -
  have a: "get_last_estimate initial_calibration (ascii ''new-session'') = None"
    by (simp add: get_last_estimate_def initial_calibration_def)
  have b: "get_last_estimate (set_last_estimate initial_calibration (ascii ''s'') (-5) 3) (ascii ''s'')
             = Some (-5)"
    by (simp add: get_last_estimate_def set_last_estimate_def initial_calibration_def
        truthy_def empty_session_def)
  have c: "calibrate_from_actual initial_calibration (ascii ''new-session'') 50000 10
             = Inr (None, initial_calibration)"
    using calibrate_without_estimate_is_noop [of initial_calibration "ascii ''new-session''" 50000 10] a
    by simp
  have d: "calibrate_from_actual (set_last_estimate initial_calibration (ascii ''s'') (-5) 3) (ascii ''s'') 50000 10
     = Inr (None, set_last_estimate initial_calibration (ascii ''s'') (-5) 3)"
    using calibrate_without_estimate_is_noop
      [of "set_last_estimate initial_calibration (ascii ''s'') (-5) 3" "ascii ''s''" 50000 10] b
    by simp
  show ?thesis using c d
    by (simp add: get_factor_def initial_calibration_def)
qed

lemma get_factor_no_factor: "has_no_factor data s \<Longrightarrow> get_factor data s = 1"
  by (auto simp: has_no_factor_def get_factor_def split: option.splits)

lemma set_factor_sessions:
  "sessions (set_factor data s f now) =
     AList.update s (empty_session\<lparr>factor := Some (max (1/2) (min 2 f)), updated_at := Some now\<rparr>) (sessions data)"
  by (simp add: set_factor_def Let_def)

lemma no_factor_set_factor:
  "has_no_factor data s \<Longrightarrow> s' \<noteq> s \<Longrightarrow> has_no_factor (set_factor data s' f now) s"
  by (simp add: has_no_factor_def set_factor_sessions map_of_update_other)

lemma no_factor_set_last_estimate:
  "has_no_factor data s \<Longrightarrow> has_no_factor (set_last_estimate data s' t now) s"
  by (cases "s' = s")
     (auto simp: has_no_factor_def set_last_estimate_def Let_def map_of_update_other
        map_of_update_same empty_session_def split: option.splits)

lemma no_factor_clear_session:
  "has_no_factor data s \<Longrightarrow> has_no_factor (clear_session data s') s"
  by (auto simp: has_no_factor_def clear_session_def delete_conv' split: option.splits)

lemma no_factor_calibrate:
  "has_no_factor data s \<Longrightarrow> s' \<noteq> s \<Longrightarrow> calibrate_from_actual data s' a now = Inr (r, data')
   \<Longrightarrow> has_no_factor data' s"
  by (auto simp: calibrate_from_actual_def Let_def has_no_factor_def set_factor_sessions
       map_of_update_other map_of_update_same split: option.splits if_splits sum.splits)

lemma no_factor_apply:
  "has_no_factor data s \<Longrightarrow> \<not> calls_set_factor s (snd op) \<Longrightarrow> has_no_factor (apply_store_op data op) s"
proof (cases op)
  case (Pair now o')
  assume h: "has_no_factor data s" and n: "\<not> calls_set_factor s (snd op)"
  show ?thesis
  proof (cases o')
    case (SetFactor s' f)
    with Pair h n show ?thesis by (simp add: no_factor_set_factor)
  next
    case (SetLastEstimate s' t)
    with Pair h show ?thesis by (simp add: no_factor_set_last_estimate)
  next
    case (CalibrateFromActual s' a)
    with Pair h n show ?thesis
      by (auto split: sum.splits dest: no_factor_calibrate)
  next
    case (ClearSession s')
    with Pair h show ?thesis by (simp add: no_factor_clear_session)
  qed
qed

lemma no_factor_run:
  "has_no_factor data s \<Longrightarrow> list_all (\<lambda>op. \<not> calls_set_factor s (snd op)) ops
   \<Longrightarrow> has_no_factor (run_store data ops) s"
  unfolding run_store_def
proof (induction ops arbitrary: data)
  case Nil
  then show ?case by simp
next
  case (Cons op ops)
  then show ?case by (simp add: no_factor_apply)
qed

text \<open>
  C4.  Start from any store in which session \<open>s\<close> has no factor (whatever the other
  sessions hold and whatever the stored \<open>global_factor\<close> is) and run any sequence of
  operations none of which calls \<open>set_factor\<close> on \<open>s\<close>, directly or through
  \<open>calibrate_from_actual\<close>.  Then \<open>get_factor s\<close> is exactly 1: the diagnostic
  average is never returned.
\<close>

theorem get_factor_default_without_set_factor:
  "has_no_factor data s \<Longrightarrow> list_all (\<lambda>op. \<not> calls_set_factor s (snd op)) ops
   \<Longrightarrow> get_factor (run_store data ops) s = 1"
  by (rule get_factor_no_factor) (rule no_factor_run)

text \<open>
  An instance: the stored average is 1.7, another session is calibrated (which moves
  the average to 2), and the session asked for only ever had estimates recorded.
\<close>

theorem get_factor_default_without_set_factor_witness:
  "get_factor (run_store \<lparr>sessions = [], global_factor = 17/10\<rparr>
      [(0, SetFactor (ascii ''other'') 3),
       (1, SetLastEstimate (ascii ''s'') 50000),
       (2, SetLastEstimate (ascii ''other'') 700),
       (3, CalibrateFromActual (ascii ''other'') 900),
       (4, ClearSession (ascii ''third''))]) (ascii ''s'') = 1
   \<and> global_factor (run_store \<lparr>sessions = [], global_factor = 17/10\<rparr>
      [(0, SetFactor (ascii ''other'') 3)]) = 2"
proof -
  have a: "has_no_factor \<lparr>sessions = [], global_factor = 17/10\<rparr> (ascii ''s'')"
    by (simp add: has_no_factor_def)
  have b: "list_all (\<lambda>op. \<not> calls_set_factor (ascii ''s'') (snd op))
      [(0::real, SetFactor (ascii ''other'') 3),
       (1, SetLastEstimate (ascii ''s'') 50000),
       (2, SetLastEstimate (ascii ''other'') 700),
       (3, CalibrateFromActual (ascii ''other'') 900),
       (4, ClearSession (ascii ''third''))]"
    by (simp add: ascii_def)
  have c: "global_factor (run_store \<lparr>sessions = [], global_factor = 17/10\<rparr>
      [(0, SetFactor (ascii ''other'') 3)]) = 2"
    by (simp add: run_store_def set_factor_def recent_factors_def empty_session_def float_sum_def
        float_eval)
  show ?thesis
    using get_factor_default_without_set_factor [OF a b] c by simp
qed

lemma get_last_estimate_set_last_estimate:
  "get_last_estimate (set_last_estimate data s e now) s = Some e"
  by (simp add: get_last_estimate_def set_last_estimate_def Let_def map_of_update_same truthy_def)

lemma max_min_clamp: "max (1/2) (min 2 x) = clamp x (1/2) 2"
  by (simp add: clamp_def max_def min_def)

text \<open>
  C1, as the code has it.  After \<open>set_last_estimate s e\<close> with \<open>e > 0\<close>,
  \<open>calibrate_from_actual s a\<close> returns the quotient \<open>a / e\<close> as the float division
  gives it, not clamped; the factor it stores, which a subsequent \<open>get_factor s\<close>
  returns, is that quotient clamped into \<open>[0.5, 2.0]\<close>.  When the quotient is too
  large for a float the call raises and stores nothing.  For \<open>|a|\<close> and \<open>e\<close> below
  \<open>2^1000\<close> the division does not overflow, and its result is the double nearest to
  \<open>a / e\<close>, within a relative error of \<open>2^(-53)\<close>.
\<close>

theorem calibrate_returns_raw_ratio:
  "0 < e \<Longrightarrow>
   (case py_truediv a e of
      Inl err \<Rightarrow> calibrate_from_actual (set_last_estimate data s e t1) s a t2 = Inl err
    | Inr q \<Rightarrow>
        (\<exists>data'. calibrate_from_actual (set_last_estimate data s e t1) s a t2 = Inr (Some q, data')
           \<and> get_factor data' s = clamp q (1/2) 2))
   \<and> (\<bar>a\<bar> < 2 ^ 1000 \<and> e < 2 ^ 1000 \<longrightarrow>
        py_truediv a e = Inr (nearest_double (real_of_int a / real_of_int e))
        \<and> \<bar>nearest_double (real_of_int a / real_of_int e) - real_of_int a / real_of_int e\<bar>
             \<le> \<bar>real_of_int a / real_of_int e\<bar> * 2 powi (- 53))"
proof -
  assume e: "0 < e"
  have 1: "calibrate_from_actual (set_last_estimate data s e t1) s a t2 = Inl err"
    if "py_truediv a e = Inl err" for err
    using that e by (simp add: calibrate_from_actual_def get_last_estimate_set_last_estimate)
  have 2: "\<exists>data'. calibrate_from_actual (set_last_estimate data s e t1) s a t2 = Inr (Some q, data')
           \<and> get_factor data' s = clamp q (1/2) 2"
    if "py_truediv a e = Inr q" for q
    using that e
    by (simp add: calibrate_from_actual_def get_last_estimate_set_last_estimate Let_def
        set_factor_sessions map_of_update_same get_factor_def truthy_def max_min_clamp)
  have 3: "py_truediv a e = Inr (nearest_double (real_of_int a / real_of_int e))
        \<and> \<bar>nearest_double (real_of_int a / real_of_int e) - real_of_int a / real_of_int e\<bar>
             \<le> \<bar>real_of_int a / real_of_int e\<bar> * 2 powi (- 53)"
    if "\<bar>a\<bar> < 2 ^ 1000" "e < 2 ^ 1000"
    using py_truediv_bounded [OF e that(2) that(1)] by simp
  show ?thesis using 1 2 3 by (auto split: sum.splits)
qed

text \<open>
  Two instances: estimate 10000 and actual count 11000 give the float \<open>1.1\<close> (the
  double \<open>2476979795053773 / 2^51\<close>), returned and stored; estimate 1 and actual count
  \<open>10^309\<close> raise \<open>OverflowError\<close>.
\<close>

theorem calibrate_returns_raw_ratio_witness:
  "(\<exists>data'. calibrate_from_actual (set_last_estimate initial_calibration (ascii ''s'') 10000 1)
                (ascii ''s'') 11000 2 = Inr (Some (2476979795053773 / 2 ^ 51), data')
        \<and> get_factor data' (ascii ''s'') = 2476979795053773 / 2 ^ 51)
   \<and> calibrate_from_actual (set_last_estimate initial_calibration (ascii ''s'') 1 1)
        (ascii ''s'') (10 ^ 309) 2 = Inl OverflowError"
proof -
  have q1: "py_truediv 11000 10000 = Inr (2476979795053773 / 2 ^ 51)"
    by (simp add: py_truediv_def float_eval)
  have q2: "py_truediv (10 ^ 309) 1 = Inl OverflowError"
    by (simp add: py_truediv_def float_eval)
  have c: "clamp (2476979795053773 / 2 ^ 51) (1/2) 2 = 2476979795053773 / 2 ^ 51"
    by (simp add: clamp_def)
  have p1: "(0::int) < 10000" and p2: "(0::int) < 1" by simp_all
  note t1 = calibrate_returns_raw_ratio [where e = 10000 and a = 11000 and data = initial_calibration
        and s = "ascii ''s''" and ?t1.0 = 1 and ?t2.0 = 2, OF p1, THEN conjunct1]
  note t2 = calibrate_returns_raw_ratio [where e = 1 and a = "10 ^ 309" and data = initial_calibration
        and s = "ascii ''s''" and ?t1.0 = 1 and ?t2.0 = 2, OF p2, THEN conjunct1]
  have i1: "\<exists>data'. calibrate_from_actual (set_last_estimate initial_calibration (ascii ''s'') 10000 1)
                (ascii ''s'') 11000 2 = Inr (Some (2476979795053773 / 2 ^ 51), data')
        \<and> get_factor data' (ascii ''s'') = 2476979795053773 / 2 ^ 51"
    using t1 by (simp only: q1 sum.case c)
  have i2: "calibrate_from_actual (set_last_estimate initial_calibration (ascii ''s'') 1 1)
        (ascii ''s'') (10 ^ 309) 2 = Inl OverflowError"
    using t2 by (simp only: q2 sum.case)
  show ?thesis using i1 i2 by (rule conjI)
qed

text \<open>
  C1 as stated fails: with estimate 100 and actual count 300 the call returns 3.0,
  while the clamped ratio, which \<open>get_factor\<close> returns afterwards, is 2.0.
\<close>

theorem calibrate_return_not_clamped_counterexample:
  "(\<exists>data'. calibrate_from_actual (set_last_estimate initial_calibration (ascii ''s'') 100 1)
                (ascii ''s'') 300 2 = Inr (Some 3, data')
        \<and> get_factor data' (ascii ''s'') = 2)
   \<and> clamp (real_of_int 300 / real_of_int 100) (1/2) 2 = 2"
proof -
  have q: "py_truediv 300 100 = Inr 3"
    by (simp add: py_truediv_def float_eval)
  show ?thesis
    by (simp add: calibrate_from_actual_def get_last_estimate_set_last_estimate Let_def q
      set_factor_sessions map_of_update_same get_factor_def truthy_def clamp_def)
qed

text \<open>
  C2.  \<open>set_factor\<close> assigns a fresh entry holding only \<open>factor\<close> and
  \<open>updated_at\<close>: an estimate recorded before is gone afterwards.
\<close>

theorem set_factor_drops_last_estimate:
  "get_last_estimate (set_last_estimate initial_calibration (ascii ''s'') 50000 1) (ascii ''s'') = Some 50000
   \<and> get_last_estimate
       (set_factor (set_last_estimate initial_calibration (ascii ''s'') 50000 1) (ascii ''s'') (11/10) 2)
       (ascii ''s'') = None"
proof -
  have "get_last_estimate (set_factor data (ascii ''s'') (11/10) 2) (ascii ''s'') = None" for data
    by (simp add: get_last_estimate_def set_factor_sessions map_of_update_same empty_session_def)
  then show ?thesis
    by (simp add: get_last_estimate_set_last_estimate)
qed

section \<open>Token estimation and context windows: properties\<close>

lemma default_window: "dict_index MODEL_CONTEXT_WINDOWS (ascii ''default'') = Inr 176000"
  by (simp add: dict_index_def MODEL_CONTEXT_WINDOWS_def ascii_def)

lemma find_first_index:
  "i < length xs \<Longrightarrow> P (xs ! i) \<Longrightarrow> (\<And>j. j < i \<Longrightarrow> \<not> P (xs ! j)) \<Longrightarrow> find P xs = Some (xs ! i)"
proof (induction xs arbitrary: i)
  case Nil
  then show ?case by simp
next
  case (Cons x xs)
  show ?case
  proof (cases i)
    case 0
    with Cons.prems show ?thesis by simp
  next
    case (Suc k)
    have "\<not> P x" using Cons.prems(3) [of 0] Suc by simp
    moreover have "find P xs = Some (xs ! k)"
    proof (rule Cons.IH)
      show "k < length xs" using Cons.prems(1) Suc by simp
      show "P (xs ! k)" using Cons.prems(2) Suc by simp
      show "\<not> P (xs ! j)" if "j < k" for j
        using Cons.prems(3) [of "Suc j"] that Suc by simp
    qed
    ultimately show ?thesis using Suc by simp
  qed
qed

lemma find_none: "(\<And>x. x \<in> set xs \<Longrightarrow> \<not> P x) \<Longrightarrow> find P xs = None"
  by (induction xs) auto

lemma get_context_window_exact:
  "m \<noteq> [] \<Longrightarrow> map_of MODEL_CONTEXT_WINDOWS (lower m) = Some w
   \<Longrightarrow> get_context_window lower (Some m) = Inr w"
  by (simp add: get_context_window_def)

lemma list_all_take_nth:
  "list_all Q (take i xs) \<Longrightarrow> j < i \<Longrightarrow> j < length xs \<Longrightarrow> Q (xs ! j)"
  by (simp add: list_all_length)

lemma get_context_window_partial:
  assumes "m \<noteq> []" and "map_of MODEL_CONTEXT_WINDOWS (lower m) = None"
    and "i < length MODEL_CONTEXT_WINDOWS"
    and "fst (MODEL_CONTEXT_WINDOWS ! i) \<noteq> ascii ''default''"
    and "str_contains (fst (MODEL_CONTEXT_WINDOWS ! i)) (lower m)"
    and "list_all (\<lambda>(key, window). key = ascii ''default'' \<or> \<not> str_contains key (lower m))
           (take i MODEL_CONTEXT_WINDOWS)"
  shows "get_context_window lower (Some m) = Inr (snd (MODEL_CONTEXT_WINDOWS ! i))"
proof -
  let ?P = "\<lambda>(key, window::int). key \<noteq> ascii ''default'' \<and> str_contains key (lower m)"
  have "find ?P MODEL_CONTEXT_WINDOWS = Some (MODEL_CONTEXT_WINDOWS ! i)"
  proof (rule find_first_index)
    show "i < length MODEL_CONTEXT_WINDOWS" by (rule assms(3))
    show "?P (MODEL_CONTEXT_WINDOWS ! i)" using assms(4,5) by (simp add: case_prod_beta)
    show "\<not> ?P (MODEL_CONTEXT_WINDOWS ! j)" if "j < i" for j
    proof -
      have "j < length MODEL_CONTEXT_WINDOWS" using that assms(3) by simp
      from list_all_take_nth [OF assms(6) that this] show ?thesis
        by (auto simp: case_prod_beta)
    qed
  qed
  then show ?thesis
    using assms(1,2) by (simp add: get_context_window_def case_prod_beta)
qed

lemma get_context_window_unknown:
  assumes "m \<noteq> []" and "map_of MODEL_CONTEXT_WINDOWS (lower m) = None"
    and "list_all (\<lambda>(key, window). key = ascii ''default'' \<or> \<not> str_contains key (lower m))
           MODEL_CONTEXT_WINDOWS"
  shows "get_context_window lower (Some m) = Inr 176000"
proof -
  let ?P = "\<lambda>(key, window::int). key \<noteq> ascii ''default'' \<and> str_contains key (lower m)"
  have "find ?P MODEL_CONTEXT_WINDOWS = None"
  proof (rule find_none)
    fix x assume "x \<in> set MODEL_CONTEXT_WINDOWS"
    with assms(3) show "\<not> ?P x" by (auto simp: list_all_iff case_prod_beta)
  qed
  then show ?thesis
    using assms(1,2) by (simp add: get_context_window_def default_window)
qed

text \<open>On an ASCII name every lowering function that is \<open>str.lower\<close> on ASCII strings
  gives the window that \<open>str_lower\<close> gives.\<close>

lemma get_context_window_ascii:
  "lowers_ascii lower \<Longrightarrow> is_ascii m
   \<Longrightarrow> get_context_window lower (Some m) = get_context_window str_lower (Some m)"
  by (simp add: get_context_window_def lowers_ascii_def)

lemma window_claude_35_sonnet:
  "get_context_window str_lower (Some (ascii ''claude-3.5-sonnet'')) = Inr 176000"
  by (simp add: get_context_window_def MODEL_CONTEXT_WINDOWS_def ascii_def str_lower_def lower_cp_def)

lemma window_fine_tuned_claude:
  "get_context_window str_lower (Some (ascii ''fine-tuned-claude-3.5-sonnet-v2'')) = Inr 176000"
  by (simp add: get_context_window_def MODEL_CONTEXT_WINDOWS_def ascii_def str_lower_def lower_cp_def)

lemma window_totally_unknown:
  "get_context_window str_lower (Some (ascii ''totally-unknown-model'')) = Inr 176000"
  by (simp add: get_context_window_def MODEL_CONTEXT_WINDOWS_def ascii_def str_lower_def lower_cp_def
      dict_index_def)

lemma named_models_ascii:
  "is_ascii (ascii ''claude-3.5-sonnet'')"
  "is_ascii (ascii ''fine-tuned-claude-3.5-sonnet-v2'')"
  "is_ascii (ascii ''totally-unknown-model'')"
  "is_ascii (ascii ''claude-4.5-sonnet'')"
  by (simp_all add: is_ascii_def ascii_def)

lemma get_context_window_total: "\<exists>w. get_context_window lower mdl = Inr w"
  by (auto simp: get_context_window_def default_window Let_def split: option.splits prod.splits)

text \<open>
  C8.  The lookup order of \<open>get_context_window\<close>, with \<open>lower\<close> for \<open>str.lower\<close>: a
  missing or empty name gives the default window; otherwise the lower-cased name is
  looked up in the table; otherwise the first key in table order, other than
  \<open>default\<close>, that is a substring of the lower-cased name gives the window; otherwise
  the default.  \<open>claude-3.5-sonnet\<close> and \<open>fine-tuned-claude-3.5-sonnet-v2\<close> get the same
  window, and \<open>totally-unknown-model\<close> gets the default.
\<close>

theorem get_context_window_lookup_order:
  "get_context_window lower None = dict_index MODEL_CONTEXT_WINDOWS (ascii ''default'')
   \<and> get_context_window lower (Some []) = dict_index MODEL_CONTEXT_WINDOWS (ascii ''default'')
   \<and> dict_index MODEL_CONTEXT_WINDOWS (ascii ''default'') = Inr 176000
   \<and> (m \<noteq> [] \<and> map_of MODEL_CONTEXT_WINDOWS (lower m) = Some w
        \<longrightarrow> get_context_window lower (Some m) = Inr w)
   \<and> (m \<noteq> [] \<and> map_of MODEL_CONTEXT_WINDOWS (lower m) = None
        \<and> i < length MODEL_CONTEXT_WINDOWS
        \<and> fst (MODEL_CONTEXT_WINDOWS ! i) \<noteq> ascii ''default''
        \<and> str_contains (fst (MODEL_CONTEXT_WINDOWS ! i)) (lower m)
        \<and> list_all (\<lambda>(key, window). key = ascii ''default'' \<or> \<not> str_contains key (lower m))
             (take i MODEL_CONTEXT_WINDOWS)
        \<longrightarrow> get_context_window lower (Some m) = Inr (snd (MODEL_CONTEXT_WINDOWS ! i)))
   \<and> (m \<noteq> [] \<and> map_of MODEL_CONTEXT_WINDOWS (lower m) = None
        \<and> list_all (\<lambda>(key, window). key = ascii ''default'' \<or> \<not> str_contains key (lower m))
             MODEL_CONTEXT_WINDOWS
        \<longrightarrow> get_context_window lower (Some m) = dict_index MODEL_CONTEXT_WINDOWS (ascii ''default''))
   \<and> (lowers_ascii lower \<longrightarrow>
        get_context_window lower (Some (ascii ''claude-3.5-sonnet''))
          = get_context_window lower (Some (ascii ''fine-tuned-claude-3.5-sonnet-v2''))
        \<and> get_context_window lower (Some (ascii ''totally-unknown-model''))
          = dict_index MODEL_CONTEXT_WINDOWS (ascii ''default''))"
proof -
  have a: "get_context_window lower None = dict_index MODEL_CONTEXT_WINDOWS (ascii ''default'')"
    by (simp add: get_context_window_def)
  have b: "get_context_window lower (Some []) = dict_index MODEL_CONTEXT_WINDOWS (ascii ''default'')"
    by (simp add: get_context_window_def)
  have c: "get_context_window lower (Some (ascii ''claude-3.5-sonnet''))
          = get_context_window lower (Some (ascii ''fine-tuned-claude-3.5-sonnet-v2''))
        \<and> get_context_window lower (Some (ascii ''totally-unknown-model''))
          = dict_index MODEL_CONTEXT_WINDOWS (ascii ''default'')"
    if "lowers_ascii lower"
    using get_context_window_ascii [OF that] named_models_ascii window_claude_35_sonnet
      window_fine_tuned_claude window_totally_unknown default_window
    by simp
  show ?thesis
    using a b c default_window get_context_window_exact [of m lower w]
      get_context_window_partial [of m lower i] get_context_window_unknown [of m lower]
    by simp
qed

text \<open>
  Instances, with \<open>str_lower\<close> for the lowering: \<open>GPT-4o\<close> by the exact match of its
  lower-cased form, \<open>Fine-Tuned-GPT-4-Turbo\<close> by the first key it contains, and
  \<open>totally-unknown-model\<close> by the default.
\<close>

theorem get_context_window_lookup_order_witness:
  "lowers_ascii str_lower
   \<and> get_context_window str_lower (Some (ascii ''GPT-4o'')) = Inr 128000
   \<and> get_context_window str_lower (Some (ascii ''Fine-Tuned-GPT-4-Turbo'')) = Inr 128000
   \<and> get_context_window str_lower (Some (ascii ''totally-unknown-model'')) = Inr 176000
   \<and> get_context_window str_lower (Some (ascii ''claude-3.5-sonnet''))
       = get_context_window str_lower (Some (ascii ''fine-tuned-claude-3.5-sonnet-v2''))"
proof -
  have l: "lowers_ascii str_lower" by (simp add: lowers_ascii_def)
  have t: "MODEL_CONTEXT_WINDOWS ! 9 = (ascii ''gpt-4-turbo'', 128000)"
    by (simp add: MODEL_CONTEXT_WINDOWS_def)
  have e1: "ascii ''GPT-4o'' \<noteq> []
      \<and> map_of MODEL_CONTEXT_WINDOWS (str_lower (ascii ''GPT-4o'')) = Some 128000"
    by (simp add: MODEL_CONTEXT_WINDOWS_def ascii_def str_lower_def lower_cp_def)
  have e2: "ascii ''Fine-Tuned-GPT-4-Turbo'' \<noteq> []
      \<and> map_of MODEL_CONTEXT_WINDOWS (str_lower (ascii ''Fine-Tuned-GPT-4-Turbo'')) = None
      \<and> 9 < length MODEL_CONTEXT_WINDOWS
      \<and> fst (MODEL_CONTEXT_WINDOWS ! 9) \<noteq> ascii ''default''
      \<and> str_contains (fst (MODEL_CONTEXT_WINDOWS ! 9)) (str_lower (ascii ''Fine-Tuned-GPT-4-Turbo''))
      \<and> list_all (\<lambda>(key, window). key = ascii ''default''
            \<or> \<not> str_contains key (str_lower (ascii ''Fine-Tuned-GPT-4-Turbo'')))
          (take 9 MODEL_CONTEXT_WINDOWS)"
    by (simp add: MODEL_CONTEXT_WINDOWS_def ascii_def str_lower_def lower_cp_def)
  have e3: "ascii ''totally-unknown-model'' \<noteq> []
      \<and> map_of MODEL_CONTEXT_WINDOWS (str_lower (ascii ''totally-unknown-model'')) = None
      \<and> list_all (\<lambda>(key, window). key = ascii ''default''
            \<or> \<not> str_contains key (str_lower (ascii ''totally-unknown-model'')))
          MODEL_CONTEXT_WINDOWS"
    by (simp add: MODEL_CONTEXT_WINDOWS_def ascii_def str_lower_def lower_cp_def)
  have r1: "get_context_window str_lower (Some (ascii ''GPT-4o'')) = Inr 128000"
    using get_context_window_lookup_order [of str_lower "ascii ''GPT-4o''" 128000 0] e1 by blast
  have r2: "get_context_window str_lower (Some (ascii ''Fine-Tuned-GPT-4-Turbo''))
      = Inr (snd (MODEL_CONTEXT_WINDOWS ! 9))"
    using get_context_window_lookup_order [of str_lower "ascii ''Fine-Tuned-GPT-4-Turbo''" 0 9] e2
    by blast
  have r3: "get_context_window str_lower (Some (ascii ''totally-unknown-model'')) = Inr 176000"
    using get_context_window_lookup_order [of str_lower "ascii ''totally-unknown-model''" 0 0] e3
    by metis
  have r4: "get_context_window str_lower (Some (ascii ''claude-3.5-sonnet''))
       = get_context_window str_lower (Some (ascii ''fine-tuned-claude-3.5-sonnet-v2''))"
    using get_context_window_lookup_order [of str_lower "[]" 0 0] l by blast
  show ?thesis using l r1 r2 r3 r4 t by simp
qed

lemma startswith_append: "startswith s (p @ q) \<Longrightarrow> startswith s p"
  by (induction s p rule: startswith.induct) auto

lemma str_contains_append: "str_contains (p @ q) s \<Longrightarrow> str_contains p s"
  by (induction s) (auto dest: startswith_append)

lemma gpt_4o_has_gpt_4: "str_contains (ascii ''gpt-4o'') s \<Longrightarrow> str_contains (ascii ''gpt-4'') s"
proof -
  have "ascii ''gpt-4o'' = ascii ''gpt-4'' @ ascii ''o''" by (simp add: ascii_def)
  then show "str_contains (ascii ''gpt-4o'') s \<Longrightarrow> str_contains (ascii ''gpt-4'') s"
    using str_contains_append by metis
qed

lemma exact_match_gpt_4o:
  "map_of MODEL_CONTEXT_WINDOWS ml = Some w \<Longrightarrow> str_contains (ascii ''gpt-4o'') ml
   \<Longrightarrow> w = 128000 \<and> ml = ascii ''gpt-4o''"
  by (auto simp: MODEL_CONTEXT_WINDOWS_def ascii_def split: if_splits)

lemma partial_match_gpt_4o_only:
  "str_contains (ascii ''gpt-4o'') ml \<Longrightarrow>
   list_all (\<lambda>key. \<not> str_contains key ml) keys_before_gpt_4o \<Longrightarrow>
   find (\<lambda>(key, window). key \<noteq> ascii ''default'' \<and> str_contains key ml) MODEL_CONTEXT_WINDOWS
     = Some (ascii ''gpt-4o'', 128000)"
  by (simp add: keys_before_gpt_4o_def MODEL_CONTEXT_WINDOWS_def ascii_def)

lemma partial_match_claude:
  "\<not> list_all (\<lambda>key. \<not> str_contains key ml) keys_before_gpt_4o \<Longrightarrow>
   \<exists>k. find (\<lambda>(key, window). key \<noteq> ascii ''default'' \<and> str_contains key ml) MODEL_CONTEXT_WINDOWS
     = Some (k, 176000)"
  by (auto simp: keys_before_gpt_4o_def MODEL_CONTEXT_WINDOWS_def ascii_def)

lemma gpt_4o_not_claude:
  "list_all (\<lambda>key. \<not> str_contains key (ascii ''gpt-4o'')) keys_before_gpt_4o"
  by (simp add: keys_before_gpt_4o_def MODEL_CONTEXT_WINDOWS_def ascii_def)

lemma gpt_4o_without_claude:
  assumes "m \<noteq> []" and "str_contains (ascii ''gpt-4o'') (lower m)"
    and "list_all (\<lambda>key. \<not> str_contains key (lower m)) keys_before_gpt_4o"
  shows "get_context_window lower (Some m) = Inr 128000"
proof (cases "map_of MODEL_CONTEXT_WINDOWS (lower m)")
  case (Some w)
  with assms(2) exact_match_gpt_4o have "w = 128000" by blast
  with Some assms(1) show ?thesis by (simp add: get_context_window_def)
next
  case None
  with assms(1) partial_match_gpt_4o_only [of "lower m", OF assms(2,3)] show ?thesis
    by (simp add: get_context_window_def)
qed

lemma gpt_4o_with_claude:
  assumes "m \<noteq> []" and "str_contains (ascii ''gpt-4o'') (lower m)"
    and "\<not> list_all (\<lambda>key. \<not> str_contains key (lower m)) keys_before_gpt_4o"
  shows "get_context_window lower (Some m) = Inr 176000"
proof (cases "map_of MODEL_CONTEXT_WINDOWS (lower m)")
  case (Some w)
  with assms(2) exact_match_gpt_4o have "lower m = ascii ''gpt-4o''" by blast
  with assms(3) gpt_4o_not_claude show ?thesis by simp
next
  case None
  from partial_match_claude [of "lower m", OF assms(3)] obtain k
    where "find (\<lambda>(key, window). key \<noteq> ascii ''default'' \<and> str_contains key (lower m))
             MODEL_CONTEXT_WINDOWS = Some (k, 176000)" by blast
  with None assms(1) show ?thesis by (simp add: get_context_window_def)
qed

lemma default_key_last:
  "i < length MODEL_CONTEXT_WINDOWS \<Longrightarrow> fst (MODEL_CONTEXT_WINDOWS ! i) = ascii ''default''
   \<Longrightarrow> take i MODEL_CONTEXT_WINDOWS = butlast MODEL_CONTEXT_WINDOWS
       \<and> snd (MODEL_CONTEXT_WINDOWS ! i) = 176000"
proof -
  assume a: "i < length MODEL_CONTEXT_WINDOWS" and b: "fst (MODEL_CONTEXT_WINDOWS ! i) = ascii ''default''"
  from a b have "i = 16"
    by (simp add: MODEL_CONTEXT_WINDOWS_def ascii_def nth_Cons' split: if_splits)
  then show ?thesis by (simp add: MODEL_CONTEXT_WINDOWS_def)
qed

lemma get_context_window_earliest:
  assumes "m \<noteq> []" and "map_of MODEL_CONTEXT_WINDOWS (lower m) = None"
    and "i < length MODEL_CONTEXT_WINDOWS"
    and "str_contains (fst (MODEL_CONTEXT_WINDOWS ! i)) (lower m)"
    and "list_all (\<lambda>(key, window). \<not> str_contains key (lower m)) (take i MODEL_CONTEXT_WINDOWS)"
  shows "get_context_window lower (Some m) = Inr (snd (MODEL_CONTEXT_WINDOWS ! i))"
proof (cases "fst (MODEL_CONTEXT_WINDOWS ! i) = ascii ''default''")
  case False
  have "list_all (\<lambda>(key, window). key = ascii ''default'' \<or> \<not> str_contains key (lower m))
           (take i MODEL_CONTEXT_WINDOWS)"
    using assms(5) by (auto simp: list_all_iff)
  from get_context_window_partial [of m lower i, OF assms(1,2,3) False assms(4) this]
  show ?thesis .
next
  case True
  from default_key_last [OF assms(3) True]
  have t: "take i MODEL_CONTEXT_WINDOWS = butlast MODEL_CONTEXT_WINDOWS"
    and w: "snd (MODEL_CONTEXT_WINDOWS ! i) = 176000" by simp_all
  have "list_all (\<lambda>(key, window). key = ascii ''default'' \<or> \<not> str_contains key (lower m))
           MODEL_CONTEXT_WINDOWS"
  proof -
    have "MODEL_CONTEXT_WINDOWS = butlast MODEL_CONTEXT_WINDOWS @ [(ascii ''default'', 176000)]"
      by (simp add: MODEL_CONTEXT_WINDOWS_def)
    then have "MODEL_CONTEXT_WINDOWS = take i MODEL_CONTEXT_WINDOWS @ [(ascii ''default'', 176000)]"
      using t by simp
    then have "set MODEL_CONTEXT_WINDOWS
        = set (take i MODEL_CONTEXT_WINDOWS) \<union> {(ascii ''default'', 176000)}"
      by (metis list.set(1) list.simps(15) set_append)
    with assms(5) show ?thesis by (auto simp: list_all_iff)
  qed
  from get_context_window_unknown [of m lower, OF assms(1,2) this] w show ?thesis by simp
qed

text \<open>
  C10, as the code has it, with \<open>lower\<close> for \<open>str.lower\<close>.  A name with no exact match
  resolves to the window of the first key in table order that its lower-cased form
  contains.  A name containing \<open>gpt-4o\<close> also contains \<open>gpt-4\<close>; it never resolves to
  the \<open>gpt-4\<close> window 8192: it resolves to the \<open>gpt-4o\<close> window 128000 when it contains
  none of the keys that stand before \<open>gpt-4o\<close> in the table (the eight Claude keys),
  and to 176000 otherwise.
\<close>

theorem partial_match_takes_earliest_key:
  "(m \<noteq> [] \<and> map_of MODEL_CONTEXT_WINDOWS (lower m) = None
        \<and> i < length MODEL_CONTEXT_WINDOWS
        \<and> str_contains (fst (MODEL_CONTEXT_WINDOWS ! i)) (lower m)
        \<and> list_all (\<lambda>(key, window). \<not> str_contains key (lower m)) (take i MODEL_CONTEXT_WINDOWS)
        \<longrightarrow> get_context_window lower (Some m) = Inr (snd (MODEL_CONTEXT_WINDOWS ! i)))
   \<and> (str_contains (ascii ''gpt-4o'') (lower m) \<longrightarrow> str_contains (ascii ''gpt-4'') (lower m))
   \<and> (m \<noteq> [] \<and> str_contains (ascii ''gpt-4o'') (lower m) \<longrightarrow>
        get_context_window lower (Some m) \<noteq> Inr 8192
        \<and> (list_all (\<lambda>key. \<not> str_contains key (lower m)) keys_before_gpt_4o
             \<longrightarrow> get_context_window lower (Some m) = Inr 128000)
        \<and> (\<not> list_all (\<lambda>key. \<not> str_contains key (lower m)) keys_before_gpt_4o
             \<longrightarrow> get_context_window lower (Some m) = Inr 176000))"
proof -
  have a: "get_context_window lower (Some m) \<noteq> Inr 8192"
    if "m \<noteq> []" "str_contains (ascii ''gpt-4o'') (lower m)"
    using gpt_4o_without_claude [of m lower, OF that] gpt_4o_with_claude [of m lower, OF that]
    by (cases "list_all (\<lambda>key. \<not> str_contains key (lower m)) keys_before_gpt_4o") auto
  show ?thesis
    using a get_context_window_earliest [of m lower i] gpt_4o_has_gpt_4 [of "lower m"]
      gpt_4o_without_claude [of m lower] gpt_4o_with_claude [of m lower]
    by blast
qed

text \<open>
  Instances, with \<open>str_lower\<close> for the lowering: \<open>fine-tuned-gpt-4o\<close> resolves to
  128000 and \<open>claude-3-opus-gpt-4o\<close> to 176000.
\<close>

theorem partial_match_takes_earliest_key_witness:
  "get_context_window str_lower (Some (ascii ''fine-tuned-gpt-4o'')) = Inr 128000
   \<and> get_context_window str_lower (Some (ascii ''claude-3-opus-gpt-4o'')) = Inr 176000
   \<and> str_contains (ascii ''gpt-4'') (str_lower (ascii ''fine-tuned-gpt-4o''))
   \<and> keys_before_gpt_4o =
       [ascii ''claude-4.5-opus'', ascii ''claude-4.5-sonnet'', ascii ''claude-4-opus'',
        ascii ''claude-4-sonnet'', ascii ''claude-3.5-sonnet'', ascii ''claude-3-opus'',
        ascii ''claude-3-sonnet'', ascii ''claude-3-haiku'']"
proof -
  have k: "keys_before_gpt_4o =
       [ascii ''claude-4.5-opus'', ascii ''claude-4.5-sonnet'', ascii ''claude-4-opus'',
        ascii ''claude-4-sonnet'', ascii ''claude-3.5-sonnet'', ascii ''claude-3-opus'',
        ascii ''claude-3-sonnet'', ascii ''claude-3-haiku'']"
    by (simp add: keys_before_gpt_4o_def MODEL_CONTEXT_WINDOWS_def ascii_def)
  have e: "ascii ''fine-tuned-gpt-4o'' \<noteq> []
      \<and> map_of MODEL_CONTEXT_WINDOWS (str_lower (ascii ''fine-tuned-gpt-4o'')) = None
      \<and> 8 < length MODEL_CONTEXT_WINDOWS
      \<and> str_contains (fst (MODEL_CONTEXT_WINDOWS ! 8)) (str_lower (ascii ''fine-tuned-gpt-4o''))
      \<and> list_all (\<lambda>(key, window). \<not> str_contains key (str_lower (ascii ''fine-tuned-gpt-4o'')))
          (take 8 MODEL_CONTEXT_WINDOWS)"
    by (simp add: MODEL_CONTEXT_WINDOWS_def ascii_def str_lower_def lower_cp_def)
  have t: "snd (MODEL_CONTEXT_WINDOWS ! 8) = 128000"
    by (simp add: MODEL_CONTEXT_WINDOWS_def)
  have g: "ascii ''fine-tuned-gpt-4o'' \<noteq> []
      \<and> str_contains (ascii ''gpt-4o'') (str_lower (ascii ''fine-tuned-gpt-4o''))
      \<and> list_all (\<lambda>key. \<not> str_contains key (str_lower (ascii ''fine-tuned-gpt-4o''))) keys_before_gpt_4o"
    by (simp add: keys_before_gpt_4o_def MODEL_CONTEXT_WINDOWS_def ascii_def str_lower_def lower_cp_def)
  have h: "ascii ''claude-3-opus-gpt-4o'' \<noteq> []
      \<and> str_contains (ascii ''gpt-4o'') (str_lower (ascii ''claude-3-opus-gpt-4o''))
      \<and> \<not> list_all (\<lambda>key. \<not> str_contains key (str_lower (ascii ''claude-3-opus-gpt-4o'')))
            keys_before_gpt_4o"
    by (simp add: keys_before_gpt_4o_def MODEL_CONTEXT_WINDOWS_def ascii_def str_lower_def lower_cp_def)
  have r1: "get_context_window str_lower (Some (ascii ''fine-tuned-gpt-4o''))
      = Inr (snd (MODEL_CONTEXT_WINDOWS ! 8))"
    using partial_match_takes_earliest_key [of "ascii ''fine-tuned-gpt-4o''" str_lower 8] e by blast
  have r2: "str_contains (ascii ''gpt-4'') (str_lower (ascii ''fine-tuned-gpt-4o''))
      \<and> get_context_window str_lower (Some (ascii ''fine-tuned-gpt-4o'')) = Inr 128000"
    using partial_match_takes_earliest_key [of "ascii ''fine-tuned-gpt-4o''" str_lower 8] g by blast
  have r3: "get_context_window str_lower (Some (ascii ''claude-3-opus-gpt-4o'')) = Inr 176000"
    using partial_match_takes_earliest_key [of "ascii ''claude-3-opus-gpt-4o''" str_lower 0] h by blast
  show ?thesis using r1 r2 r3 t k by simp
qed

text \<open>
  C10 as stated fails: \<open>claude-3-opus-gpt-4o\<close> (an ASCII name, so \<open>str_lower\<close> is
  \<open>str.lower\<close> on it) has no exact match and contains \<open>gpt-4o\<close> (and \<open>gpt-4\<close>), yet it
  resolves to 176000, the window of \<open>claude-3-opus\<close>, which stands earlier in the
  table; not to the \<open>gpt-4o\<close> window 128000.
\<close>

theorem gpt_4o_name_resolves_to_claude_counterexample:
  "is_ascii (ascii ''claude-3-opus-gpt-4o'')
   \<and> map_of MODEL_CONTEXT_WINDOWS (str_lower (ascii ''claude-3-opus-gpt-4o'')) = None
   \<and> str_contains (ascii ''gpt-4o'') (str_lower (ascii ''claude-3-opus-gpt-4o''))
   \<and> str_contains (ascii ''gpt-4'') (str_lower (ascii ''claude-3-opus-gpt-4o''))
   \<and> get_context_window str_lower (Some (ascii ''claude-3-opus-gpt-4o'')) = Inr 176000
   \<and> get_context_window str_lower (Some (ascii ''claude-3-opus-gpt-4o'')) \<noteq> Inr 128000"
  by (simp add: get_context_window_def MODEL_CONTEXT_WINDOWS_def ascii_def str_lower_def lower_cp_def
      is_ascii_def)

lemma two_roundings:
  fixes p q x e :: real
  assumes a: "\<bar>q - x\<bar> \<le> \<bar>x\<bar> * e" and b: "\<bar>p - q * 100\<bar> \<le> \<bar>q * 100\<bar> * e"
    and e0: "0 \<le> e" and e1: "e \<le> 1"
  shows "\<bar>p - 100 * x\<bar> \<le> \<bar>100 * x\<bar> * (4 * e)"
proof -
  have "\<bar>x\<bar> * e \<le> \<bar>x\<bar> * 1" using e1 by (intro mult_left_mono) simp_all
  with a have "\<bar>q\<bar> \<le> 2 * \<bar>x\<bar>" by linarith
  then have "\<bar>q * 100\<bar> \<le> 200 * \<bar>x\<bar>" by (simp add: abs_mult)
  then have "\<bar>q * 100\<bar> * e \<le> 200 * \<bar>x\<bar> * e" using e0 by (rule mult_right_mono)
  with b have 1: "\<bar>p - q * 100\<bar> \<le> 200 * (\<bar>x\<bar> * e)" by simp
  have "p - 100 * x = (p - q * 100) + 100 * (q - x)" by simp
  then have "\<bar>p - 100 * x\<bar> \<le> \<bar>p - q * 100\<bar> + \<bar>100 * (q - x)\<bar>"
    by (metis abs_triangle_ineq)
  moreover have "\<bar>100 * (q - x)\<bar> = 100 * \<bar>q - x\<bar>"
    by (simp only: abs_mult)
  ultimately have "\<bar>p - 100 * x\<bar> \<le> \<bar>p - q * 100\<bar> + 100 * \<bar>q - x\<bar>"
    by (simp only:)
  with 1 a have "\<bar>p - 100 * x\<bar> \<le> 300 * (\<bar>x\<bar> * e)" by linarith
  moreover have "0 \<le> \<bar>x\<bar> * e" using e0 by simp
  ultimately have "\<bar>p - 100 * x\<bar> \<le> 400 * (\<bar>x\<bar> * e)" by linarith
  then show ?thesis by (simp add: abs_mult)
qed

lemma abs_min_100: "\<bar>min p 100 - min 100 z\<bar> \<le> \<bar>p - z\<bar>" for p z :: real
  by (auto simp: min_def abs_if)

lemma float_min_100_Fin: "float_min_100 (Fin a) = Fin (min a 100)"
  by (simp add: float_min_100_def min_def)

lemma calculate_context_percentage_bounded:
  assumes w: "0 < w" "w < 2 ^ 1000" and t: "\<bar>t\<bar> < 2 ^ 1000"
  shows "calculate_context_percentage t w
           = Inr (Fin (min (nearest_double (nearest_double (real_of_int t / real_of_int w) * 100)) 100))
         \<and> \<bar>min (nearest_double (nearest_double (real_of_int t / real_of_int w) * 100)) 100
              - min 100 (100 * real_of_int t / real_of_int w)\<bar>
             \<le> \<bar>100 * real_of_int t / real_of_int w\<bar> * 2 powi (- 51)"
proof (cases "t = 0")
  case True
  have "py_truediv 0 w = Inr 0"
    using w(1) by (simp add: py_truediv_def to_double_zero)
  with True w(1) show ?thesis
    by (simp add: calculate_context_percentage_def bind_err_def float_times_def to_double_zero
        float_min_100_Fin nearest_double_def)
next
  case False
  define x where "x = real_of_int t / real_of_int w"
  define q where "q = nearest_double x"
  define p where "p = nearest_double (q * 100)"
  from int_quotient_normal [OF False w t]
  have xl: "2 powi (- 1000) \<le> \<bar>x\<bar>" and xh: "\<bar>x\<bar> < 2 ^ 1000" by (simp_all add: x_def)
  have xn: "2 powi (- 1022) \<le> \<bar>x\<bar>" using xl powi_1000_1022 by linarith
  have div: "py_truediv t w = Inr q"
    using py_truediv_bounded(1) [OF w t] by (simp add: q_def x_def)
  have qe: "\<bar>q - x\<bar> \<le> \<bar>x\<bar> * 2 powi (- 53)"
    unfolding q_def by (rule nearest_double_rel_error [OF xn])
  have qh: "\<bar>q\<bar> \<le> 2 * \<bar>x\<bar>" and ql: "\<bar>x\<bar> / 2 \<le> \<bar>q\<bar>"
    unfolding q_def by (rule nearest_double_abs_bounds [OF xn])+
  have pos: "(0::real) < 2 powi (- 1000)" by simp
  have y: "\<bar>q * 100\<bar> = 100 * \<bar>q\<bar>" by (simp add: abs_mult)
  have "2 powi (- 1000) \<le> 100 * \<bar>q\<bar>" using ql xl pos by linarith
  then have yn: "2 powi (- 1022) \<le> \<bar>q * 100\<bar>" using y powi_1000_1022 by linarith
  have "(200::real) * 2 ^ 1000 \<le> 2 ^ 1023" by simp
  then have yh: "\<bar>q * 100\<bar> < 2 ^ 1023" using y qh xh by linarith
  have mul: "float_times (Fin q) 100 = Fin p"
    using to_double_finite [OF yn yh] by (simp add: float_times_def p_def)
  have pe: "\<bar>p - q * 100\<bar> \<le> \<bar>q * 100\<bar> * 2 powi (- 53)"
    unfolding p_def by (rule nearest_double_rel_error [OF yn])
  have e: "(0::real) \<le> 2 powi (- 53)" "(2::real) powi (- 53) \<le> 1"
    by (simp_all add: power_int_minus)
  have "\<bar>p - 100 * x\<bar> \<le> \<bar>100 * x\<bar> * (4 * 2 powi (- 53))"
    by (rule two_roundings [OF qe pe e])
  moreover have "(4::real) * 2 powi (- 53) = 2 powi (- 51)"
    by (simp add: power_int_minus)
  ultimately have pb: "\<bar>p - 100 * x\<bar> \<le> \<bar>100 * x\<bar> * 2 powi (- 51)" by simp
  have "\<bar>min p 100 - min 100 (100 * x)\<bar> \<le> \<bar>p - 100 * x\<bar>" by (rule abs_min_100)
  with pb have "\<bar>min p 100 - min 100 (100 * x)\<bar> \<le> \<bar>100 * x\<bar> * 2 powi (- 51)" by linarith
  moreover have "calculate_context_percentage t w = Inr (Fin (min p 100))"
    using w(1) by (simp add: calculate_context_percentage_def div bind_err_def mul float_min_100_Fin)
  ultimately show ?thesis by (simp add: p_def q_def x_def)
qed

lemma percentage_instances:
  "calculate_context_percentage 50000 200000 = Inr (Fin 25)"
  "calculate_context_percentage 250000 200000 = Inr (Fin 100)"
  "calculate_context_percentage 44000 176000 = Inr (Fin 25)"
  by (simp_all add: calculate_context_percentage_def py_truediv_def bind_err_def float_times_def
      float_min_100_def float_eval)

lemma round_instances:
  "py_round1 (Fin 25) = Fin 25"
  "py_round1 (float_100_minus (Fin 25)) = Fin 75"
  "py_round1 (Fin 100) = Fin 100"
  "py_round1 (Fin 0) = Fin 0"
  by (simp_all add: py_round1_def float_100_minus_def float_eval)

text \<open>
  C9, as the code has it.  For a window \<open>\<le> 0\<close> the used percentage is \<open>0.0\<close>.  For a
  positive window it is \<open>(tokens / window) * 100\<close> in float arithmetic, capped at
  \<open>100.0\<close>: the quotient is rounded to a double and so is the product.  For \<open>|tokens|\<close>
  and \<open>window\<close> below \<open>2^1000\<close> nothing overflows, and the result is within a relative
  error of \<open>2^(-51)\<close> of \<open>min 100 (100 * tokens / window)\<close>.  \<open>calculate_context_metrics\<close>
  rounds the used percentage, and 100 minus the unrounded used percentage, to one
  decimal.  For 50000 of 200000 tokens the two are \<open>25.0\<close> and \<open>75.0\<close>; for 250000 of
  200000 the used percentage is \<open>100.0\<close>; for a window of 0 it is \<open>0.0\<close>.
\<close>

theorem context_percentage_and_metrics:
  "(w \<le> 0 \<longrightarrow> calculate_context_percentage t w = Inr (Fin 0))
   \<and> (0 < w \<and> w < 2 ^ 1000 \<and> \<bar>t\<bar> < 2 ^ 1000 \<longrightarrow>
        calculate_context_percentage t w
           = Inr (Fin (min (nearest_double (nearest_double (real_of_int t / real_of_int w) * 100)) 100))
        \<and> \<bar>min (nearest_double (nearest_double (real_of_int t / real_of_int w) * 100)) 100
              - min 100 (100 * real_of_int t / real_of_int w)\<bar>
             \<le> \<bar>100 * real_of_int t / real_of_int w\<bar> * 2 powi (- 51))
   \<and> (\<exists>cw. get_context_window lower mdl = Inr cw
         \<and> calculate_context_metrics lower t mdl =
             (case calculate_context_percentage t cw of
                Inl err \<Rightarrow> Inl err
              | Inr used \<Rightarrow>
                  Inr \<lparr>context_metrics.used_percentage = py_round1 used,
                       remaining_percentage = py_round1 (float_100_minus used),
                       context_window_size = cw,
                       estimated_tokens = t\<rparr>))
   \<and> calculate_context_percentage 50000 200000 = Inr (Fin 25)
   \<and> py_round1 (Fin 25) = Fin 25
   \<and> py_round1 (float_100_minus (Fin 25)) = Fin 75
   \<and> calculate_context_percentage 250000 200000 = Inr (Fin 100)
   \<and> py_round1 (Fin 100) = Fin 100
   \<and> calculate_context_percentage t 0 = Inr (Fin 0)
   \<and> py_round1 (Fin 0) = Fin 0
   \<and> (lowers_ascii lower \<longrightarrow>
        calculate_context_metrics lower 44000 (Some (ascii ''claude-4.5-sonnet'')) =
          Inr \<lparr>context_metrics.used_percentage = Fin 25, remaining_percentage = Fin 75,
               context_window_size = 176000, estimated_tokens = 44000\<rparr>)"
proof -
  have z: "calculate_context_percentage t w = Inr (Fin 0)" if "w \<le> 0" for w
    using that by (simp add: calculate_context_percentage_def)
  obtain cw where cw: "get_context_window lower mdl = Inr cw"
    using get_context_window_total by blast
  have m: "calculate_context_metrics lower t mdl =
             (case calculate_context_percentage t cw of
                Inl err \<Rightarrow> Inl err
              | Inr used \<Rightarrow>
                  Inr \<lparr>context_metrics.used_percentage = py_round1 used,
                       remaining_percentage = py_round1 (float_100_minus used),
                       context_window_size = cw,
                       estimated_tokens = t\<rparr>)"
    by (simp add: calculate_context_metrics_def cw bind_err_def)
  have w4: "get_context_window str_lower (Some (ascii ''claude-4.5-sonnet'')) = Inr 176000"
    by (simp add: get_context_window_def MODEL_CONTEXT_WINDOWS_def ascii_def str_lower_def lower_cp_def)
  have m4: "calculate_context_metrics lower 44000 (Some (ascii ''claude-4.5-sonnet'')) =
          Inr \<lparr>context_metrics.used_percentage = Fin 25, remaining_percentage = Fin 75,
               context_window_size = 176000, estimated_tokens = 44000\<rparr>"
    if "lowers_ascii lower"
    using get_context_window_ascii [OF that named_models_ascii(4)] w4
    by (simp add: calculate_context_metrics_def bind_err_def percentage_instances round_instances)
  show ?thesis
    using z [of w] z [of 0] calculate_context_percentage_bounded [of w t] cw m m4
      percentage_instances round_instances
    by simp
qed

text \<open>
  An instance of the bound: 968 tokens in a window of 176000.
\<close>

theorem context_percentage_and_metrics_witness:
  "calculate_context_percentage 968 176000
     = Inr (Fin (min (nearest_double (nearest_double (real_of_int 968 / real_of_int 176000) * 100)) 100))
   \<and> \<bar>min (nearest_double (nearest_double (real_of_int 968 / real_of_int 176000) * 100)) 100
        - min 100 (100 * real_of_int 968 / real_of_int 176000)\<bar>
       \<le> \<bar>100 * real_of_int 968 / real_of_int 176000\<bar> * 2 powi (- 51)
   \<and> calculate_context_percentage 50000 (- 1) = Inr (Fin 0)
   \<and> lowers_ascii str_lower
   \<and> calculate_context_metrics str_lower 44000 (Some (ascii ''claude-4.5-sonnet'')) =
          Inr \<lparr>context_metrics.used_percentage = Fin 25, remaining_percentage = Fin 75,
               context_window_size = 176000, estimated_tokens = 44000\<rparr>"
proof -
  have l: "lowers_ascii str_lower" by (simp add: lowers_ascii_def)
  have h: "(0::int) < 176000 \<and> (176000::int) < 2 ^ 1000 \<and> \<bar>968::int\<bar> < 2 ^ 1000" by simp
  have n: "(- 1 :: int) \<le> 0" by simp
  from context_percentage_and_metrics [of 176000 968 str_lower None] h
  have a: "calculate_context_percentage 968 176000
     = Inr (Fin (min (nearest_double (nearest_double (real_of_int 968 / real_of_int 176000) * 100)) 100))
   \<and> \<bar>min (nearest_double (nearest_double (real_of_int 968 / real_of_int 176000) * 100)) 100
        - min 100 (100 * real_of_int 968 / real_of_int 176000)\<bar>
       \<le> \<bar>100 * real_of_int 968 / real_of_int 176000\<bar> * 2 powi (- 51)"
    by blast
  from context_percentage_and_metrics [of "- 1" 50000 str_lower None] n
  have b: "calculate_context_percentage 50000 (- 1) = Inr (Fin 0)" by blast
  from context_percentage_and_metrics [of 0 0 str_lower None] l
  have c: "calculate_context_metrics str_lower 44000 (Some (ascii ''claude-4.5-sonnet'')) =
          Inr \<lparr>context_metrics.used_percentage = Fin 25, remaining_percentage = Fin 75,
               context_window_size = 176000, estimated_tokens = 44000\<rparr>"
    by blast
  from a b l c show ?thesis by blast
qed

text \<open>
  C9 as stated fails: for 968 tokens and the model \<open>claude-3-opus\<close> (window 176000)
  the product \<open>100 * tokens / window\<close> is 0.55, which rounds to 0.6; the code's float
  \<open>(968 / 176000) * 100\<close> is the double below 0.55, and the metrics hold 0.5 and 99.5.
\<close>

theorem context_percentage_rounding_counterexample:
  "calculate_context_percentage 968 176000 = Inr (Fin (4953959590107545 / 2 ^ 53))
   \<and> (4953959590107545 / 2 ^ 53 :: real) \<noteq> min 100 (100 * real_of_int 968 / real_of_int 176000)
   \<and> min 100 (100 * real_of_int 968 / real_of_int 176000) = 55 / 100
   \<and> real_of_int (round_half_even (min 100 (100 * real_of_int 968 / real_of_int 176000) * 10)) / 10
       = 6 / 10
   \<and> calculate_context_metrics str_lower 968 (Some (ascii ''claude-3-opus'')) =
        Inr \<lparr>context_metrics.used_percentage = Fin (5 / 10), remaining_percentage = Fin (995 / 10),
             context_window_size = 176000, estimated_tokens = 968\<rparr>"
proof -
  have c: "calculate_context_percentage 968 176000 = Inr (Fin (4953959590107545 / 2 ^ 53))"
    by (simp add: calculate_context_percentage_def py_truediv_def bind_err_def float_times_def
        float_min_100_def float_eval)
  have r1: "py_round1 (Fin (4953959590107545 / 2 ^ 53)) = Fin (5 / 10)"
    by (simp add: py_round1_def float_eval)
  have m: "float_100_minus (Fin (4953959590107545 / 2 ^ 53)) = Fin (6998171608468685 / 2 ^ 46)"
    by (simp add: float_100_minus_def float_eval)
  have r2: "py_round1 (Fin (6998171608468685 / 2 ^ 46)) = Fin (995 / 10)"
    by (simp add: py_round1_def float_eval)
  have w: "get_context_window str_lower (Some (ascii ''claude-3-opus'')) = Inr 176000"
    by (simp add: get_context_window_def MODEL_CONTEXT_WINDOWS_def ascii_def str_lower_def lower_cp_def)
  have e: "real_of_int (round_half_even (min 100 (100 * real_of_int 968 / real_of_int 176000) * 10)) / 10
       = 6 / 10"
    by (simp add: round_half_even_def)
  have k: "calculate_context_metrics str_lower 968 (Some (ascii ''claude-3-opus'')) =
        Inr \<lparr>context_metrics.used_percentage = Fin (5 / 10), remaining_percentage = Fin (995 / 10),
             context_window_size = 176000, estimated_tokens = 968\<rparr>"
    by (simp only: calculate_context_metrics_def w c bind_err_def sum.case r1 m r2)
  have n: "(4953959590107545 / 2 ^ 53 :: real) \<noteq> min 100 (100 * real_of_int 968 / real_of_int 176000)"
    by simp
  have v: "min 100 (100 * real_of_int 968 / real_of_int 176000) = (55 / 100 :: real)" by simp
  from c n v e k show ?thesis by blast
qed

lemma length_concat_replicate: "length (concat (replicate k s)) = k * length s"
  by (induction k) auto

lemma fallback_estimate: "fst (estimate_tokens None None (Some t)) = length t div 4"
  by (simp add: estimate_tokens_def get_encoder_def)

lemma div4_strict: "(2::nat) \<le> n \<Longrightarrow> 2 \<le> k \<Longrightarrow> n div 4 < (k * n) div 4"
proof -
  assume n: "2 \<le> n" and k: "2 \<le> k"
  have "2 * n \<le> k * n" using k by simp
  then have "(2 * n) div 4 \<le> (k * n) div 4" by (rule div_le_mono)
  moreover have "n div 4 < (2 * n) div 4" using n by arith
  ultimately show ?thesis by simp
qed

lemma div4_mono: "(1::nat) \<le> k \<Longrightarrow> n div 4 \<le> (k * n) div 4"
  by (rule div_le_mono) simp

text \<open>
  C7, as the code has it.  An absent or empty text gives 0 on either path.  On the
  fallback path (no encoder) the estimate is \<open>len(text) // 4\<close>: a text repeated
  \<open>k \<ge> 2\<close> times never has a smaller estimate than the text itself, and a strictly
  larger one when the text has at least two characters.  On the encoder path the
  estimate of a non-empty text is the number of tokens the encoder returns.
\<close>

theorem estimate_tokens_empty_and_repeated:
  "fst (estimate_tokens tiktoken cache None) = 0
   \<and> fst (estimate_tokens tiktoken cache (Some [])) = 0
   \<and> (2 \<le> k \<longrightarrow>
        fst (estimate_tokens None None (Some short))
          \<le> fst (estimate_tokens None None (Some (concat (replicate k short)))))
   \<and> (2 \<le> k \<and> 2 \<le> length short \<longrightarrow>
        fst (estimate_tokens None None (Some short))
          < fst (estimate_tokens None None (Some (concat (replicate k short)))))
   \<and> (short \<noteq> [] \<longrightarrow>
        fst (estimate_tokens (Some enc) None (Some short)) = length (enc short)
        \<and> fst (estimate_tokens tiktoken (Some enc) (Some short)) = length (enc short))"
proof -
  have a: "fst (estimate_tokens tiktoken cache None) = 0"
    "fst (estimate_tokens tiktoken cache (Some [])) = 0"
    by (simp_all add: estimate_tokens_def)
  have b: "short \<noteq> [] \<Longrightarrow>
        fst (estimate_tokens (Some enc) None (Some short)) = length (enc short)
        \<and> fst (estimate_tokens tiktoken (Some enc) (Some short)) = length (enc short)"
    by (simp add: estimate_tokens_def get_encoder_def)
  have c: "2 \<le> k \<Longrightarrow> length short div 4 \<le> (k * length short) div 4"
    using div4_mono [of k "length short"] by simp
  show ?thesis
    using a b c div4_strict [of "length short" k]
    by (simp add: fallback_estimate length_concat_replicate)
qed

theorem estimate_tokens_empty_and_repeated_witness:
  "fst (estimate_tokens None None (Some (ascii ''Hello'')))
     < fst (estimate_tokens None None (Some (concat (replicate 3 (ascii ''Hello'')))))
   \<and> fst (estimate_tokens (Some (\<lambda>t. [length t])) None (Some (ascii ''Hello''))) = 1"
proof -
  have "(2::nat) \<le> 3 \<and> 2 \<le> length (ascii ''Hello'') \<and> ascii ''Hello'' \<noteq> []"
    by (simp add: ascii_def)
  then show ?thesis
    using estimate_tokens_empty_and_repeated [of None None 3 "ascii ''Hello''" "\<lambda>t. [length t]"]
    by simp
qed

text \<open>
  C7 as stated fails on the fallback path: the one-character text \<open>a\<close> and its
  repetition \<open>aa\<close> both have the estimate 0.
\<close>

theorem estimate_tokens_short_text_counterexample:
  "concat (replicate 2 (ascii ''a'')) = ascii ''aa''
   \<and> fst (estimate_tokens None None (Some (ascii ''a''))) = 0
   \<and> fst (estimate_tokens None None (Some (ascii ''aa''))) = 0
   \<and> \<not> fst (estimate_tokens None None (Some (ascii ''a'')))
         < fst (estimate_tokens None None (Some (concat (replicate 2 (ascii ''a'')))))"
  by (simp add: estimate_tokens_def get_encoder_def ascii_def numeral_2_eq_2)

section \<open>The report parser: properties\<close>

subsection \<open>Matching\<close>

















subsection \<open>Item lines\<close>










subsection \<open>Finding a text\<close>













subsection \<open>The bounds of a section\<close>











subsection \<open>The categories before the sections are read\<close>








subsection \<open>The items of a section\<close>










subsection \<open>The sample reports\<close>

































subsection \<open>The items of the Skills section\<close>




subsection \<open>The suffix of the header\<close>


end
